theory Spec2Isabelle
  imports Main "HOL-Library.Char_ord" "HOL-Library.List_Lexorder"
begin

section \<open>Python values used by the timeline widget\<close>

text \<open>
  Exceptions are values: an exception carries the text that \<open>str(e)\<close> yields.
  Optional attributes (a model field that may hold \<open>None\<close>) are options.
  Timestamps are integers, in seconds on the storage clock (UTC); the local-time
  conversion happens only when a cell is rendered.
\<close>

datatype error = Exception string

fun message_of :: "error \<Rightarrow> string" where
  "message_of (Exception m) = m"

text \<open>Truthiness of an optional string and of an optional integer, as \<open>if x\<close> tests it.\<close>

fun truthy_str :: "string option \<Rightarrow> bool" where
  "truthy_str None = False"
| "truthy_str (Some s) = (s \<noteq> [])"

fun truthy_int :: "int option \<Rightarrow> bool" where
  "truthy_int None = False"
| "truthy_int (Some i) = (i \<noteq> 0)"

text \<open>\<open>x or d\<close> for an optional string \<open>x\<close> and a string \<open>d\<close>.\<close>

fun or_str :: "string option \<Rightarrow> string \<Rightarrow> string" where
  "or_str None d = d"
| "or_str (Some s) d = (if s \<noteq> [] then s else d)"

text \<open>Decimal text of an integer, as \<open>str\<close> and the f-string \<open>{n}\<close> produce it.\<close>

definition digit_char :: "nat \<Rightarrow> char" where
  "digit_char d = ''0123456789'' ! d"

fun str_nat :: "nat \<Rightarrow> string" where
  "str_nat n = (if n < 10 then [digit_char n] else str_nat (n div 10) @ [digit_char (n mod 10)])"

declare str_nat.simps [simp del]

definition str_int :: "int \<Rightarrow> string" where
  "str_int i = (if i < 0 then CHR ''-'' # str_nat (nat (- i)) else str_nat (nat i))"

text \<open>The f-string field \<open>{x}\<close> of an optional value: \<open>None\<close> is formatted as its name.\<close>

fun fmt_str :: "string option \<Rightarrow> string" where
  "fmt_str None = ''None''"
| "fmt_str (Some s) = s"

fun fmt_int :: "int option \<Rightarrow> string" where
  "fmt_int None = ''None''"
| "fmt_int (Some i) = str_int i"

section \<open>Records read from storage and rows of the timeline\<close>

text \<open>
  Modelled from the spec: the connection record of \<open>core.models\<close>, whose declaration is
  not among the sources. It exposes source and destination address, destination port and
  process id; \<open>refresh\<close> reads each of them as an attribute that may hold \<open>None\<close>.
\<close>

record connection =
  c_src_ip :: "string option"
  c_dst_ip :: "string option"
  c_dst_port :: "int option"
  c_pid :: "int option"

text \<open>
  Modelled from the spec: the class \<open>Alert\<close> of \<open>core.models\<close>, whose declaration is not
  among the sources. An alert exposes a timestamp, type, severity, free-text message,
  optional source and destination address and port, and an optional link to a connection
  record; these are the attributes \<open>refresh\<close> reads.
\<close>

record alert =
  a_timestamp :: int
  a_alert_type :: "string option"
  a_severity :: "string option"
  a_message :: "string option"
  a_src_ip :: "string option"
  a_dst_ip :: "string option"
  a_dst_port :: "int option"
  a_connection :: "connection option"

text \<open>
  Modelled from the spec: the class \<open>QuarantinedFile\<close> of \<open>core.models\<close>, whose
  declaration is not among the sources. A quarantine record exposes its detection
  timestamp and its filename; whatever else it carries is the record's extension.
\<close>

record quarantined_file =
  q_detected_at :: int
  q_filename :: string

text \<open>The dictionary appended to \<open>rows\<close>, one field per key.\<close>

record row =
  r_time :: int
  r_type :: string
  r_severity :: string
  r_src :: string
  r_dst :: string
  r_details :: string
  r_process_chain :: string

section \<open>Building a row from an alert\<close>

text \<open>
  \<^verbatim>\<open>src = alert.src_ip or ""
  if not src and conn: src = conn.src_ip or ""\<close>
\<close>

definition alert_src :: "alert \<Rightarrow> string" where
  "alert_src a =
     (let src = or_str (a_src_ip a) ''''
      in if src = [] then (case a_connection a of Some c \<Rightarrow> or_str (c_src_ip c) '''' | None \<Rightarrow> src)
         else src)"

text \<open>
  The \<open>elif alert.dst_ip\<close> branch: the alert's own address, with \<open>:port\<close> appended
  when \<open>alert.dst_port\<close> is truthy; the empty string when the alert has no address.
\<close>

definition alert_own_dst :: "alert \<Rightarrow> string" where
  "alert_own_dst a =
     (if truthy_str (a_dst_ip a)
      then (let dst_port = (if truthy_int (a_dst_port a) then '':'' @ fmt_int (a_dst_port a) else '''')
            in fmt_str (a_dst_ip a) @ dst_port)
      else '''')"

text \<open>
  \<^verbatim>\<open>if conn and conn.dst_ip: dst = f"{conn.dst_ip}:{conn.dst_port}"\<close>, else the branch above.
\<close>

definition alert_dst :: "alert \<Rightarrow> string" where
  "alert_dst a =
     (case a_connection a of
        Some c \<Rightarrow>
          (if truthy_str (c_dst_ip c) then fmt_str (c_dst_ip c) @ '':'' @ fmt_int (c_dst_port c)
           else alert_own_dst a)
      | None \<Rightarrow> alert_own_dst a)"

text \<open>
  The process chain: looked up only when the connection has a truthy pid; a lookup that
  raises is replaced by \<open>PID <pid>\<close>. The lookup itself (\<open>build_process_chain\<close>) is a
  collaborator, passed as a parameter.
\<close>

definition alert_chain :: "(int \<Rightarrow> error + string) \<Rightarrow> alert \<Rightarrow> string" where
  "alert_chain build_process_chain a =
     (case a_connection a of
        Some c \<Rightarrow>
          (if truthy_int (c_pid c)
           then (case build_process_chain (the (c_pid c)) of
                   Inr chain \<Rightarrow> chain
                 | Inl _ \<Rightarrow> ''PID '' @ fmt_int (c_pid c))
           else '''')
      | None \<Rightarrow> '''')"

definition alert_row :: "(int \<Rightarrow> error + string) \<Rightarrow> alert \<Rightarrow> row" where
  "alert_row build_process_chain a =
     \<lparr> r_time = a_timestamp a,
       r_type = or_str (a_alert_type a) ''Alert'',
       r_severity = or_str (a_severity a) '''',
       r_src = alert_src a,
       r_dst = alert_dst a,
       r_details = or_str (a_message a) '''',
       r_process_chain = alert_chain build_process_chain a \<rparr>"

definition quarantine_row :: "'a quarantined_file_scheme \<Rightarrow> row" where
  "quarantine_row q =
     \<lparr> r_time = q_detected_at q,
       r_type = ''Quarantine'',
       r_severity = ''high'',
       r_src = '''',
       r_dst = '''',
       r_details = ''File quarantined: '' @ q_filename q,
       r_process_chain = '''' \<rparr>"

section \<open>The table widget\<close>

text \<open>
  The part of the toolkit's table the widget and the column manager touch: the column
  count, the viewport width, the cell items (one optional item per cell), the spans,
  whether sorting is enabled, and the horizontal header.

  The header holds, per logical section, its size, resize mode and content size hint;
  the visual order of the sections (the logical index at each visual position); the
  stretch-last flag; the bounds and the default of a section's size; the sort indicator;
  whether a layout pass is posted for the next turn of the event loop; and the slots
  connected to \<open>sectionResized\<close>. A slot is named by the settings key of the manager
  whose \<open>save_state\<close> it is.
\<close>

datatype item = Item (i_text: string) (i_centered: bool)

datatype sort_order = AscendingOrder | DescendingOrder

datatype resize_mode = Interactive | Fixed | Stretch | ResizeToContents

record header =
  h_section_sizes :: "int list"
  h_visual_order :: "nat list"
  h_stretch_last_section :: bool
  h_sections_movable :: bool
  h_resize_modes :: "resize_mode list"
  h_global_resize_mode :: resize_mode
  h_size_hints :: "int list"
  h_minimum_section_size :: int
  h_maximum_section_size :: int
  h_default_section_size :: int
  h_sort_indicator_section :: int
  h_sort_indicator_order :: sort_order
  h_resize_pending :: bool
  h_section_resized_slots :: "string list"

record table_widget =
  t_column_count :: nat
  t_viewport_width :: int
  t_cells :: "item option list list"
  t_spans :: "(nat \<times> nat \<times> nat \<times> nat) list"
  t_sorting_enabled :: bool
  t_header :: header

definition rowCount :: "table_widget \<Rightarrow> nat" where
  "rowCount t = length (t_cells t)"

text \<open>
  \<open>setRowCount n\<close> drops the rows from \<open>n\<close> on (with their items and spans) and adds
  empty rows up to \<open>n\<close>.
\<close>

definition setRowCount :: "nat \<Rightarrow> table_widget \<Rightarrow> table_widget" where
  "setRowCount n t =
     t\<lparr> t_cells := take n (t_cells t) @
                     replicate (n - length (t_cells t)) (replicate (t_column_count t) None),
        t_spans := filter (\<lambda>(r, c, rs, cs). r < n) (t_spans t) \<rparr>"

text \<open>
  The items of a column that take part in a sorted insertion: those of the rows above the
  first row without an item in that column.
\<close>

definition cell_at :: "item option list \<Rightarrow> nat \<Rightarrow> item option" where
  "cell_at row c = (if c < length row then row ! c else None)"

fun columnItems :: "nat \<Rightarrow> item option list list \<Rightarrow> item list" where
  "columnItems c [] = []"
| "columnItems c (row # rows) =
     (case cell_at row c of None \<Rightarrow> [] | Some it \<Rightarrow> it # columnItems c rows)"

text \<open>
  The binary search \<open>std::lower_bound\<close> over the positions \<open>first ..< first + count\<close>
  of a list; \<open>precedes x\<close> is the comparison of an element with the value searched for.
\<close>

function lower_bound :: "('a \<Rightarrow> bool) \<Rightarrow> 'a list \<Rightarrow> nat \<Rightarrow> nat \<Rightarrow> nat" where
  "lower_bound precedes xs first count =
     (if count = 0 then first
      else (let step = count div 2; it = first + step
            in if precedes (xs ! it) then lower_bound precedes xs (it + 1) (count - (step + 1))
               else lower_bound precedes xs first step))"
  by pat_completeness auto
termination
  by (relation "measure (\<lambda>(precedes, xs, first, count). count)") auto

declare lower_bound.simps [simp del]

text \<open>
  Items are compared by their text. In ascending order an element comes before the new
  item when it is less; in descending order, when the new item is less than it.
\<close>

definition item_less :: "item \<Rightarrow> item \<Rightarrow> bool" where
  "item_less a b = (i_text a < i_text b)"

definition precedes :: "sort_order \<Rightarrow> item \<Rightarrow> item \<Rightarrow> bool" where
  "precedes order x it =
     (case order of AscendingOrder \<Rightarrow> item_less x it | DescendingOrder \<Rightarrow> item_less it x)"

definition sortedInsertionRow :: "sort_order \<Rightarrow> item list \<Rightarrow> item \<Rightarrow> nat" where
  "sortedInsertionRow order colItems it =
     lower_bound (\<lambda>x. precedes order x it) colItems 0 (length colItems)"

definition remove_nth :: "nat \<Rightarrow> 'a list \<Rightarrow> 'a list" where
  "remove_nth r xs = take r xs @ drop (Suc r) xs"

definition move_row :: "nat \<Rightarrow> nat \<Rightarrow> 'a list \<Rightarrow> 'a list" where
  "move_row r k xs = (let ys = remove_nth r xs in take k ys @ [xs ! r] @ drop k ys)"

text \<open>
  \<open>setItem\<close>: outside the table the call is ignored. Inside, the item is stored; and
  when sorting is enabled and the column is the one of the sort indicator, the row is
  moved to its sorted position among the rows that have an item in that column.
\<close>

definition setItem :: "nat \<Rightarrow> nat \<Rightarrow> item \<Rightarrow> table_widget \<Rightarrow> table_widget" where
  "setItem r c it t =
     (if r < length (t_cells t) \<and> c < t_column_count t
      then (let cells = (t_cells t)[r := ((t_cells t) ! r)[c := Some it]]
            in if t_sorting_enabled t \<and> h_sort_indicator_section (t_header t) = int c
               then (let colItems = columnItems c cells;
                         others = (if r < length colItems then remove_nth r colItems
                                   else colItems);
                         sortedRow = sortedInsertionRow (h_sort_indicator_order (t_header t))
                                       others it
                     in if sortedRow \<noteq> r then t\<lparr> t_cells := move_row r sortedRow cells \<rparr>
                        else t\<lparr> t_cells := cells \<rparr>)
               else t\<lparr> t_cells := cells \<rparr>)
      else t)"

definition setSpan :: "nat \<Rightarrow> nat \<Rightarrow> nat \<Rightarrow> nat \<Rightarrow> table_widget \<Rightarrow> table_widget" where
  "setSpan r c rs cs t = t\<lparr> t_spans := t_spans t @ [(r, c, rs, cs)] \<rparr>"

text \<open>\<open>_set_item\<close>: the text through \<open>str\<close> (the identity on a string), centre-aligned.\<close>

definition set_item :: "nat \<Rightarrow> nat \<Rightarrow> string \<Rightarrow> table_widget \<Rightarrow> table_widget" where
  "set_item r c txt t = setItem r c (Item txt True) t"

section \<open>Storage, clock and collaborators of a refresh\<close>

text \<open>
  What one refresh cycle reads: whether closing the database connection raises, the two
  stored tables and whether querying them raises, the clock, the process-ancestry lookup,
  and the conversion of a stored time to formatted local time (which raises on a value it
  cannot convert).
\<close>

record env =
  db_close :: "error option"
  alert_objects :: "alert list"
  alert_query_error :: "error option"
  quarantine_objects :: "quarantined_file list"
  quarantine_query_error :: "error option"
  now :: int
  build_process_chain :: "int \<Rightarrow> error + string"
  localtime :: "int \<Rightarrow> error + string"

text \<open>\<open>order_by("-field")\<close>: descending by the field; equal keys keep the stored order.\<close>

definition order_by_desc :: "('a \<Rightarrow> int) \<Rightarrow> 'a list \<Rightarrow> 'a list" where
  "order_by_desc field xs = sort_key (\<lambda>x. - field x) xs"

text \<open>\<^verbatim>\<open>list(Alert.objects.all().order_by("-timestamp")[:100])\<close>\<close>

definition alerts_query :: "env \<Rightarrow> error + alert list" where
  "alerts_query e =
     (case alert_query_error e of
        Some err \<Rightarrow> Inl err
      | None \<Rightarrow> Inr (take 100 (order_by_desc a_timestamp (alert_objects e))))"

text \<open>
  \<^verbatim>\<open>list(QuarantinedFile.objects.filter(detected_at__gte=window).order_by("-detected_at")[:50])\<close>
\<close>

definition in_window :: "int \<Rightarrow> quarantined_file \<Rightarrow> bool" where
  "in_window window q = (window \<le> q_detected_at q)"

definition quarantine_query :: "env \<Rightarrow> int \<Rightarrow> error + quarantined_file list" where
  "quarantine_query e window =
     (case quarantine_query_error e of
        Some err \<Rightarrow> Inl err
      | None \<Rightarrow>
          Inr (take 50 (order_by_desc q_detected_at
                          (filter (in_window window) (quarantine_objects e)))))"

text \<open>The lookback window: \<open>timezone.now() - timedelta(hours=24)\<close>, in seconds.\<close>

definition window_start :: "env \<Rightarrow> int" where
  "window_start e = now e - 24 * 3600"

section \<open>The refresh cycle\<close>

datatype level = DEBUG | INFO | ERROR

record ui =
  u_table :: table_widget
  u_log :: "(level \<times> string) list"

definition log_msg :: "level \<Rightarrow> string \<Rightarrow> ui \<Rightarrow> ui" where
  "log_msg lv m u = u\<lparr> u_log := u_log u @ [(lv, m)] \<rparr>"

text \<open>
  \<open>rows.sort(key=..., reverse=True)\<close>: the list is reversed, sorted stably by the key
  in ascending order, and reversed again, which is how the interpreter keeps the sort
  stable under \<open>reverse\<close>.
\<close>

definition sort_reverse :: "('a \<Rightarrow> int) \<Rightarrow> 'a list \<Rightarrow> 'a list" where
  "sort_reverse key xs = rev (sort_key key (rev xs))"

text \<open>The rows in the order they are appended (alerts, then quarantine events), sorted.\<close>

definition merge_rows :: "row list \<Rightarrow> row list \<Rightarrow> row list" where
  "merge_rows alert_rows quarantine_rows = sort_reverse r_time (alert_rows @ quarantine_rows)"

text \<open>
  The first part of the \<open>try\<close> body, up to and including the sort: it touches the log
  only. An exception of \<open>db_connection.close()\<close> or of the alert query leaves it at
  once; an exception of the quarantine query is caught by the inner handler, logged at
  debug level, and the cycle goes on with the alert rows.
\<close>

definition fetch_rows :: "env \<Rightarrow> ui \<Rightarrow> (error + row list) \<times> ui" where
  "fetch_rows e u =
     (case db_close e of
        Some err \<Rightarrow> (Inl err, u)
      | None \<Rightarrow>
          (case alerts_query e of
             Inl err \<Rightarrow> (Inl err, u)
           | Inr alerts \<Rightarrow>
               (let u1 = log_msg INFO (''Threat timeline: found '' @ str_nat (length alerts)
                                        @ '' alerts'') u;
                    rows = map (alert_row (build_process_chain e)) alerts;
                    window = window_start e
                in case quarantine_query e window of
                     Inr q_events \<Rightarrow> (Inr (merge_rows rows (map quarantine_row q_events)), u1)
                   | Inl err \<Rightarrow>
                       (Inr (merge_rows rows []),
                        log_msg DEBUG (''Could not fetch quarantine events: '' @ message_of err)
                          u1))))"

text \<open>One row of the table: the seven \<open>_set_item\<close> calls after the time conversion.\<close>

definition render_row :: "nat \<Rightarrow> string \<Rightarrow> row \<Rightarrow> table_widget \<Rightarrow> table_widget" where
  "render_row row_idx local_time r t =
     set_item row_idx 6 (r_process_chain r)
       (set_item row_idx 5 (r_details r)
         (set_item row_idx 4 (r_dst r)
           (set_item row_idx 3 (r_src r)
             (set_item row_idx 2 (r_severity r)
               (set_item row_idx 1 (r_type r)
                 (set_item row_idx 0 local_time t))))))"

text \<open>
  The loop over \<open>enumerate(rows)\<close>: an exception of the time conversion leaves the loop
  with the rows rendered so far in place.
\<close>

fun render_rows :: "(int \<Rightarrow> error + string) \<Rightarrow> nat \<Rightarrow> row list \<Rightarrow> table_widget
                     \<Rightarrow> error option \<times> table_widget" where
  "render_rows lt row_idx [] t = (None, t)"
| "render_rows lt row_idx (r # rs) t =
     (case lt (r_time r) of
        Inl err \<Rightarrow> (Some err, t)
      | Inr local_time \<Rightarrow> render_rows lt (Suc row_idx) rs (render_row row_idx local_time r t))"

text \<open>The second part of the \<open>try\<close> body: the table is cleared and rebuilt.\<close>

definition rebuild_table :: "env \<Rightarrow> row list \<Rightarrow> table_widget \<Rightarrow> error option \<times> table_widget" where
  "rebuild_table e rows t =
     (let t0 = setRowCount 0 t
      in if rows = []
         then (None, setSpan 0 0 1 7
                       (setItem 0 0 (Item ''No security events found.'' False)
                          (setRowCount 1 t0)))
         else render_rows (localtime e) 0 rows (setRowCount (length rows) t0))"

text \<open>The whole \<open>try\<close> body: the exception that leaves it, if any, and the state then.\<close>

definition refresh_try :: "env \<Rightarrow> ui \<Rightarrow> error option \<times> ui" where
  "refresh_try e u =
     (case fetch_rows e u of
        (Inl err, u') \<Rightarrow> (Some err, u')
      | (Inr rows, u') \<Rightarrow>
          (case rebuild_table e rows (u_table u') of
             (r, t') \<Rightarrow> (r, u'\<lparr> u_table := t' \<rparr>)))"

text \<open>\<open>refresh\<close>: the body under the blanket handler, which logs and returns.\<close>

definition refresh :: "env \<Rightarrow> ui \<Rightarrow> ui" where
  "refresh e u =
     (case refresh_try e u of
        (None, u') \<Rightarrow> u'
      | (Some err, u') \<Rightarrow>
          log_msg ERROR (''Error refreshing threat timeline: '' @ message_of err) u')"

section \<open>What a rendered row looks like\<close>

text \<open>
  The seven texts the loop hands to \<open>_set_item\<close> for a row, and the seven items they
  make when they all land in one row of the table.
\<close>

definition row_texts :: "string \<Rightarrow> row \<Rightarrow> string list" where
  "row_texts local_time r =
     [local_time, r_type r, r_severity r, r_src r, r_dst r, r_details r, r_process_chain r]"

definition row_items :: "string \<Rightarrow> row \<Rightarrow> item option list" where
  "row_items local_time r = map (\<lambda>s. Some (Item s True)) (row_texts local_time r)"

text \<open>
  The rows stay where they are written when sorting does not apply to any of the seven
  columns, or when in the column of the sort indicator each text precedes, in the
  indicator's order, the texts of the rows below it.
\<close>

definition in_place :: "table_widget \<Rightarrow> (row \<Rightarrow> string) \<Rightarrow> row list \<Rightarrow> bool" where
  "in_place t txt rows =
     (\<forall>c < 7. t_sorting_enabled t \<longrightarrow> h_sort_indicator_section (t_header t) = int c \<longrightarrow>
        sorted_wrt (\<lambda>a b. precedes (h_sort_indicator_order (t_header t))
                           (Item (row_texts (txt a) a ! c) True)
                           (Item (row_texts (txt b) b ! c) True)) rows)"

section \<open>The header's layout\<close>

text \<open>
  A section's size is kept within the header's bounds. The stretched section is the last
  one in visual order when the stretch-last flag is on; the layout treats it as a section
  in \<open>Stretch\<close> mode, whatever its own mode.
\<close>

definition maxSizeSection :: int where
  "maxSizeSection = 1048575"

definition bound_size :: "header \<Rightarrow> int \<Rightarrow> int" where
  "bound_size h s = max (h_minimum_section_size h) (min (h_maximum_section_size h) s)"

definition stretch_section :: "header \<Rightarrow> nat option" where
  "stretch_section h =
     (if h_stretch_last_section h \<and> h_visual_order h \<noteq> [] then Some (last (h_visual_order h))
      else None)"

definition section_mode :: "header \<Rightarrow> nat \<Rightarrow> resize_mode" where
  "section_mode h l =
     (if l < length (h_resize_modes h) then h_resize_modes h ! l else h_global_resize_mode h)"

definition layout_mode :: "header \<Rightarrow> nat \<Rightarrow> resize_mode" where
  "layout_mode h l = (if stretch_section h = Some l then Stretch else section_mode h l)"

definition section_size :: "header \<Rightarrow> nat \<Rightarrow> int" where
  "section_size h l = (if l < length (h_section_sizes h) then h_section_sizes h ! l else 0)"

definition size_hint :: "header \<Rightarrow> nat \<Rightarrow> int" where
  "size_hint h l = (if l < length (h_size_hints h) then h_size_hints h ! l else 0)"

text \<open>The size the layout gives a section that is not stretched.\<close>

definition fixed_size :: "header \<Rightarrow> nat \<Rightarrow> int" where
  "fixed_size h l =
     (case layout_mode h l of
        ResizeToContents \<Rightarrow> bound_size h (size_hint h l)
      | _ \<Rightarrow> bound_size h (section_size h l))"

definition hasAutoResizeSections :: "header \<Rightarrow> bool" where
  "hasAutoResizeSections h =
     (h_stretch_last_section h \<or> Stretch \<in> set (h_resize_modes h)
      \<or> ResizeToContents \<in> set (h_resize_modes h))"

text \<open>
  The layout pass \<open>resizeSections\<close> for a viewport of the given width: every section
  that is not stretched gets its bounded size (or bounded hint); when there is room left,
  the stretched sections share it, none below the minimum, the first ones in visual
  order taking the remaining pixels; when there is no room, they keep their sizes. The
  pass clears the posted request.
\<close>

definition resizeSections :: "int \<Rightarrow> header \<Rightarrow> header" where
  "resizeSections vw h =
     (let stretched = filter (\<lambda>l. layout_mode h l = Stretch) (h_visual_order h);
          others = filter (\<lambda>l. layout_mode h l \<noteq> Stretch) (h_visual_order h);
          lengthToStretch = vw - sum_list (map (fixed_size h) others);
          fixed = fold (\<lambda>l s. s[l := fixed_size h l]) others (h_section_sizes h);
          n = int (length stretched)
      in h\<lparr> h_section_sizes :=
             (if n > 0 \<and> lengthToStretch > 0
              then fold (\<lambda>(k, l) s.
                           s[l := max (lengthToStretch div n) (h_minimum_section_size h)
                                  + (if int k < lengthToStretch mod n then 1 else 0)])
                     (enumerate 0 stretched) fixed
              else fixed),
           h_resize_pending := False \<rparr>)"

section \<open>The column manager\<close>

text \<open>
  The header's serialised state, as \<open>saveState\<close> returns it and \<open>restoreState\<close>
  applies it: the section sizes, the visual order, the stretch flag, whether sections can
  be moved, the resize modes, the minimum and default section size, and the sort
  indicator. The maximum section size, the size hints, a posted layout request and the
  slots connected to the header's signals are not part of it.
\<close>

datatype header_state =
  HeaderState (hs_sizes: "int list") (hs_order: "nat list") (hs_stretch_last: bool)
    (hs_movable: bool) (hs_modes: "resize_mode list") (hs_global_mode: resize_mode)
    (hs_minimum: int) (hs_default: int) (hs_sort_section: int) (hs_sort_order: sort_order)

definition saveState :: "header \<Rightarrow> header_state" where
  "saveState h =
     HeaderState (h_section_sizes h) (h_visual_order h) (h_stretch_last_section h)
       (h_sections_movable h) (h_resize_modes h) (h_global_resize_mode h)
       (h_minimum_section_size h) (h_default_section_size h)
       (h_sort_indicator_section h) (h_sort_indicator_order h)"

text \<open>
  \<open>restoreState\<close> on a header of a view with \<open>count\<close> columns: the saved state is
  taken over; when it has fewer sections than the view has columns, the missing sections
  are added at the end with the saved default size and global mode; with the stretch
  flag on, a layout pass is posted.
\<close>

definition restoreState :: "header_state \<Rightarrow> nat \<Rightarrow> header \<Rightarrow> header" where
  "restoreState st count h =
     (let n = length (hs_sizes st)
      in h\<lparr> h_section_sizes := hs_sizes st @ replicate (count - n) (hs_default st),
            h_visual_order := hs_order st @ [n ..< count],
            h_stretch_last_section := hs_stretch_last st,
            h_sections_movable := hs_movable st,
            h_resize_modes := hs_modes st @ replicate (count - n) (hs_global_mode st),
            h_global_resize_mode := hs_global_mode st,
            h_minimum_section_size := hs_minimum st,
            h_default_section_size := hs_default st,
            h_sort_indicator_section := hs_sort_section st,
            h_sort_indicator_order := hs_sort_order st,
            h_resize_pending := (h_resize_pending h \<or> hs_stretch_last st) \<rparr>)"

text \<open>
  The view sorts its rows when the header announces its sort indicator: the rows with an
  item in that column, in the order of their texts (rows with equal texts keep their
  order), then the rows without one.
\<close>

definition sort_text :: "nat \<Rightarrow> item option list \<Rightarrow> string" where
  "sort_text c row = (case cell_at row c of Some it \<Rightarrow> i_text it | None \<Rightarrow> [])"

definition sort_rows :: "int \<Rightarrow> sort_order \<Rightarrow> item option list list \<Rightarrow> item option list list" where
  "sort_rows column order cells =
     (if column < 0 then cells
      else (let c = nat column;
                sortable = filter (\<lambda>row. cell_at row c \<noteq> None) cells;
                unsortable = filter (\<lambda>row. cell_at row c = None) cells
            in (case order of
                  AscendingOrder \<Rightarrow> sort_key (sort_text c) sortable
                | DescendingOrder \<Rightarrow> rev (sort_key (sort_text c) (rev sortable)))
               @ unsortable))"

definition sortIndicatorChanged :: "table_widget \<Rightarrow> table_widget" where
  "sortIndicatorChanged t =
     (if t_sorting_enabled t
      then t\<lparr> t_cells := sort_rows (h_sort_indicator_section (t_header t))
                            (h_sort_indicator_order (t_header t)) (t_cells t) \<rparr>
      else t)"

text \<open>
  The persistent settings \<open>QSettings("Flow", "FlowApp")\<close>: one stored header state per
  key. \<open>settings.value(key)\<close> is \<open>None\<close> for a key never written; a stored header
  state is a non-empty byte array, hence truthy.
\<close>

type_synonym settings = "string \<Rightarrow> header_state option"

record world =
  w_table :: table_widget
  w_settings :: settings

record manager =
  settings_key :: string
  default_set :: bool

text \<open>\<open>TableColumnManager.__init__\<close>\<close>

definition new_manager :: "string \<Rightarrow> manager" where
  "new_manager key = \<lparr> settings_key = key, default_set = False \<rparr>"

definition map_header :: "(header \<Rightarrow> header) \<Rightarrow> world \<Rightarrow> world" where
  "map_header f w = w\<lparr> w_table := (w_table w)\<lparr> t_header := f (t_header (w_table w)) \<rparr> \<rparr>"

text \<open>\<open>save_state\<close>: the header's state is written under the manager's key.\<close>

definition save_under :: "string \<Rightarrow> world \<Rightarrow> world" where
  "save_under key w = w\<lparr> w_settings := (w_settings w)(key \<mapsto> saveState (t_header (w_table w))) \<rparr>"

definition save_state :: "manager \<Rightarrow> world \<Rightarrow> world" where
  "save_state m w = save_under (settings_key m) w"

text \<open>
  Emitting \<open>sectionResized\<close> runs every connected slot, in connection order, before the
  emitting call returns.
\<close>

definition emit_sectionResized :: "world \<Rightarrow> world" where
  "emit_sectionResized w = fold save_under (h_section_resized_slots (t_header (w_table w))) w"

text \<open>
  A layout pass on the header of the table, for the table's viewport. The pass emits
  \<open>sectionResized\<close> for each section whose size it changes; the slots are those of
  \<open>save_state\<close>, and what they have stored after the last signal is the state the pass
  ends in.
\<close>

definition run_layout :: "world \<Rightarrow> world" where
  "run_layout w =
     (let h = t_header (w_table w);
          h' = resizeSections (t_viewport_width (w_table w)) h;
          w' = map_header (\<lambda>_. h') w
      in if h_section_sizes h' \<noteq> h_section_sizes h then emit_sectionResized w' else w')"

text \<open>The next turn of the event loop runs a posted layout pass.\<close>

definition process_events :: "world \<Rightarrow> world" where
  "process_events w = (if h_resize_pending (t_header (w_table w)) then run_layout w else w)"

definition post_layout :: "header \<Rightarrow> header" where
  "post_layout h = h\<lparr> h_resize_pending := (h_resize_pending h \<or> hasAutoResizeSections h) \<rparr>"

text \<open>The table is given a new viewport width; the header posts a layout pass.\<close>

definition viewport_resized :: "int \<Rightarrow> world \<Rightarrow> world" where
  "viewport_resized vw w =
     map_header post_layout (w\<lparr> w_table := (w_table w)\<lparr> t_viewport_width := vw \<rparr> \<rparr>)"

text \<open>
  \<open>resizeSection\<close>, which a drag of a section border by the user and \<open>setColumnWidth\<close>
  both end in: a call for a section that does not exist or with a size out of range is
  ignored; the size is bounded; a section that changes its size is resized, a layout pass
  is posted and the signal is emitted.
\<close>

definition resizeSection :: "nat \<Rightarrow> int \<Rightarrow> world \<Rightarrow> world" where
  "resizeSection i new_size w =
     (let h = t_header (w_table w);
          sizes = h_section_sizes h
      in if i \<ge> length sizes \<or> new_size < 0 \<or> new_size > maxSizeSection then w
         else (let bounded = (if new_size > 0 then bound_size h new_size else new_size)
               in if sizes ! i = bounded then w
                  else emit_sectionResized
                         (map_header (\<lambda>h. post_layout (h\<lparr> h_section_sizes := sizes[i := bounded] \<rparr>))
                            w)))"

definition setColumnWidth :: "nat \<Rightarrow> int \<Rightarrow> world \<Rightarrow> world" where
  "setColumnWidth i width w = resizeSection i width w"

text \<open>
  \<open>setStretchLastSection(True)\<close>: nothing happens when the flag is on already;
  otherwise it is turned on and a layout pass runs at once.
\<close>

definition setStretchLastSection_True :: "world \<Rightarrow> world" where
  "setStretchLastSection_True w =
     (if h_stretch_last_section (t_header (w_table w)) then w
      else run_layout (map_header (\<lambda>h. h\<lparr> h_stretch_last_section := True \<rparr>) w))"

definition setSectionResizeModeAll :: "resize_mode \<Rightarrow> header \<Rightarrow> header" where
  "setSectionResizeModeAll mode h =
     post_layout (h\<lparr> h_resize_modes := map (\<lambda>_. mode) (h_resize_modes h),
                     h_global_resize_mode := mode \<rparr>)"

definition setSectionResizeMode :: "nat \<Rightarrow> resize_mode \<Rightarrow> header \<Rightarrow> header" where
  "setSectionResizeMode i mode h =
     post_layout (h\<lparr> h_resize_modes := (h_resize_modes h)[i := mode] \<rparr>)"

text \<open>The global mode, then each section in \<open>range(columnCount())\<close>, set to Interactive.\<close>

definition force_interactive :: "world \<Rightarrow> world" where
  "force_interactive w =
     map_header (\<lambda>h. fold (\<lambda>i. setSectionResizeMode i Interactive)
                        [0 ..< t_column_count (w_table w)]
                        (setSectionResizeModeAll Interactive h)) w"

text \<open>
  \<open>disconnect\<close> removes the slot (raising when it was not connected, which the caller
  passes over); \<open>connect\<close> appends it.
\<close>

definition disconnect_slot :: "string \<Rightarrow> header \<Rightarrow> header" where
  "disconnect_slot key h = h\<lparr> h_section_resized_slots := removeAll key (h_section_resized_slots h) \<rparr>"

definition connect_slot :: "string \<Rightarrow> header \<Rightarrow> header" where
  "connect_slot key h = h\<lparr> h_section_resized_slots := h_section_resized_slots h @ [key] \<rparr>"

text \<open>
  \<open>header.restoreState(state)\<close> on the table's header: the state is applied for the
  table's column count, and the view reacts to the announced sort indicator.
\<close>

definition restore_header :: "header_state \<Rightarrow> world \<Rightarrow> world" where
  "restore_header state w =
     (let w1 = map_header (restoreState state (t_column_count (w_table w))) w
      in w1\<lparr> w_table := sortIndicatorChanged (w_table w1) \<rparr>)"

definition restore_state :: "manager \<Rightarrow> world \<Rightarrow> manager \<times> world" where
  "restore_state m w =
     (let (m1, w1) =
            (case w_settings w (settings_key m) of
               Some state \<Rightarrow> (m\<lparr> default_set := True \<rparr>, restore_header state w)
             | None \<Rightarrow> (m\<lparr> default_set := False \<rparr>, w));
          w2 = map_header (disconnect_slot (settings_key m)) w1;
          w3 = map_header (connect_slot (settings_key m)) w2
      in (m1, force_interactive w3))"

text \<open>\<open>TableColumnManager.setup\<close>\<close>

definition setup_manager :: "manager \<Rightarrow> world \<Rightarrow> manager \<times> world" where
  "setup_manager m w =
     (let w1 = map_header (\<lambda>h. h\<lparr> h_sections_movable := True \<rparr>) w;
          w2 = setStretchLastSection_True w1
      in restore_state m (force_interactive w2))"

definition handle_resize :: "manager \<Rightarrow> world \<Rightarrow> manager \<times> world" where
  "handle_resize m w =
     (if \<not> default_set m
      then (let width = t_viewport_width (w_table w)
            in if width > 300
               then (let count = t_column_count (w_table w)
                     in if count > 0
                        then (let col_width = width div int count;
                                  stretch_last = h_stretch_last_section (t_header (w_table w));
                                  limit = (if stretch_last then count - 1 else count)
                              in (m\<lparr> default_set := True \<rparr>,
                                  fold (\<lambda>i. setColumnWidth i col_width) [0 ..< limit] w))
                        else (m, w))
               else (m, w))
      else (m, w))"

text \<open>
  The widget's \<open>resizeEvent\<close>: by the time it runs the table has its new viewport, and
  the manager's \<open>handle_resize\<close> is called.
\<close>

definition resizeEvent :: "int \<Rightarrow> manager \<Rightarrow> world \<Rightarrow> manager \<times> world" where
  "resizeEvent vw m w = handle_resize m (viewport_resized vw w)"

section \<open>Concrete inputs\<close>

text \<open>
  Inputs at which the properties below are exercised: a connection with a destination
  address, a pid and no destination port; an alert that carries nothing but a time and
  that connection; an ancestry lookup that always raises; a time conversion that never
  raises; a seven-column table without rows, with sorting enabled and the sort indicator
  where the toolkit puts it at first (column 0, descending); a quarantine record; and an
  environment holding the one alert and the one quarantine record.
\<close>

definition example_connection :: connection where
  "example_connection =
     \<lparr> c_src_ip = Some ''192.168.1.20'', c_dst_ip = Some ''10.0.0.5'', c_dst_port = None,
       c_pid = Some 4120 \<rparr>"

definition example_alert :: alert where
  "example_alert =
     \<lparr> a_timestamp = 1000, a_alert_type = None, a_severity = None, a_message = None,
       a_src_ip = None, a_dst_ip = None, a_dst_port = None,
       a_connection = Some example_connection \<rparr>"

definition failing_lookup :: "int \<Rightarrow> error + string" where
  "failing_lookup pid = Inl (Exception ''process not found'')"

definition utc_text :: "int \<Rightarrow> error + string" where
  "utc_text t = Inr (str_int t)"

definition example_header :: header where
  "example_header =
     \<lparr> h_section_sizes = replicate 7 100, h_visual_order = [0 ..< 7],
       h_stretch_last_section = False, h_sections_movable = False,
       h_resize_modes = replicate 7 Fixed, h_global_resize_mode = Interactive,
       h_size_hints = replicate 7 60, h_minimum_section_size = 21,
       h_maximum_section_size = 1048575, h_default_section_size = 100,
       h_sort_indicator_section = 0, h_sort_indicator_order = DescendingOrder,
       h_resize_pending = False, h_section_resized_slots = [] \<rparr>"

definition example_table :: table_widget where
  "example_table =
     \<lparr> t_column_count = 7, t_viewport_width = 900, t_cells = [], t_spans = [],
       t_sorting_enabled = True, t_header = example_header \<rparr>"

definition example_quarantine :: quarantined_file where
  "example_quarantine = \<lparr> q_detected_at = 1500, q_filename = ''invoice.exe'' \<rparr>"

definition example_env :: env where
  "example_env =
     \<lparr> db_close = None, alert_objects = [example_alert], alert_query_error = None,
       quarantine_objects = [example_quarantine], quarantine_query_error = None, now = 2000,
       build_process_chain = failing_lookup, localtime = utc_text \<rparr>"

text \<open>
  Variants of the environment: closing the database connection raises; the time conversion
  raises; nothing is stored. And a state in which two rows are on display.
\<close>

definition failing_env :: env where
  "failing_env = example_env\<lparr> db_close := Some (Exception ''connection lost'') \<rparr>"

definition naive_time_env :: env where
  "naive_time_env = example_env\<lparr> localtime := (\<lambda>t. Inl (Exception ''naive datetime'')) \<rparr>"

definition empty_env :: env where
  "empty_env = example_env\<lparr> alert_objects := [], quarantine_objects := [] \<rparr>"

definition example_ui :: ui where
  "example_ui = \<lparr> u_table = setRowCount 2 example_table, u_log = [] \<rparr>"




text \<open>
  A second alert raised in the same second as the first, with a type, severity and
  message of its own and no connection; and an environment holding the two alerts and no
  quarantine record.
\<close>

definition second_alert :: alert where
  "second_alert =
     \<lparr> a_timestamp = 1000, a_alert_type = Some ''portscan'', a_severity = Some ''low'',
       a_message = Some ''scan from 10.0.0.9'', a_src_ip = Some ''10.0.0.9'',
       a_dst_ip = None, a_dst_port = None, a_connection = None \<rparr>"

definition burst_env :: env where
  "burst_env = example_env\<lparr> alert_objects := [example_alert, second_alert],
                             quarantine_objects := [] \<rparr>"

text \<open>
  A first start: the example table and settings in which nothing was ever saved. The
  header of a world's table and its section sizes are abbreviated.
\<close>

definition example_world :: world where
  "example_world = \<lparr> w_table = example_table, w_settings = (\<lambda>key. None) \<rparr>"

abbreviation header_of :: "world \<Rightarrow> header" where
  "header_of w \<equiv> t_header (w_table w)"

abbreviation sizes_of :: "world \<Rightarrow> int list" where
  "sizes_of w \<equiv> h_section_sizes (t_header (w_table w))"

text \<open>
  Two sessions of the widget on the example table. The first one starts with nothing
  saved: the manager is set up under the widget's key, the event loop runs, the widget
  gets a resize event for a viewport of 900, and the event loop runs again. The user then
  drags the third column to a width of 240, and the event loop runs. The second session
  sets a manager up on a new table of the same shape, with the settings the first one
  left.
\<close>

definition first_start :: "manager \<times> world" where
  "first_start = setup_manager (new_manager ''timeline_table_state'') example_world"

definition first_shown :: "manager \<times> world" where
  "first_shown = resizeEvent 900 (fst first_start) (process_events (snd first_start))"





text \<open>
  Two relations used in the proofs about the column manager; they are not functions of
  the program. A header is \<open>managed\<close> under a key once \<open>setup\<close> has run for a manager
  with that key: the last section is stretched, every section is in Interactive mode,
  and the manager's \<open>save_state\<close> is connected to \<open>sectionResized\<close>. Two headers have
  the \<open>same_frame\<close> when they agree on the number of sections, on their visual order
  and on the bounds of a section's size.
\<close>

definition managed :: "string \<Rightarrow> header \<Rightarrow> bool" where
  "managed key h \<longleftrightarrow>
     h_stretch_last_section h \<and> set (h_resize_modes h) \<subseteq> {Interactive}
     \<and> h_global_resize_mode h = Interactive \<and> key \<in> set (h_section_resized_slots h)"

definition same_frame :: "header \<Rightarrow> header \<Rightarrow> bool" where
  "same_frame h h' \<longleftrightarrow>
     h_visual_order h' = h_visual_order h
     \<and> h_minimum_section_size h' = h_minimum_section_size h
     \<and> h_maximum_section_size h' = h_maximum_section_size h
     \<and> length (h_section_sizes h') = length (h_section_sizes h)"

section \<open>The merge is a stable descending sort\<close>



lemma set_sort_reverse: "set (sort_reverse key xs) = set xs"
  by (simp add: sort_reverse_def)

lemma length_sort_reverse: "length (sort_reverse key xs) = length xs"
  by (simp add: sort_reverse_def)


section \<open>Writing into a sorted table\<close>

lemma lower_bound_all:
  "(\<And>k. first \<le> k \<Longrightarrow> k < first + count \<Longrightarrow> p (xs ! k)) \<Longrightarrow>
   lower_bound p xs first count = first + count"
proof (induction p xs first count rule: lower_bound.induct)
  case (1 p xs first count)
  show ?case
  proof (cases "count = 0")
    case True
    then show ?thesis by (simp add: lower_bound.simps)
  next
    case False
    let ?step = "count div 2"
    have mid: "p (xs ! (first + ?step))"
      using False by (intro "1.prems") auto
    have "lower_bound p xs (first + ?step + 1) (count - (?step + 1)) =
            first + ?step + 1 + (count - (?step + 1))"
      using False mid by (intro "1.IH"(1) "1.prems") auto
    moreover have "?step + 1 \<le> count"
      using False by auto
    ultimately show ?thesis
      using False mid by (subst lower_bound.simps) (simp add: Let_def)
  qed
qed

lemma columnItems_prefix:
  "list_all2 (\<lambda>row x. cell_at row c = Some x) P xs \<Longrightarrow>
   columnItems c (P @ rest) = xs @ columnItems c rest"
  by (induction P xs rule: list_all2_induct) simp_all

lemma sortedInsertionRow_end:
  "(\<And>x. x \<in> set xs \<Longrightarrow> precedes order x it) \<Longrightarrow>
   sortedInsertionRow order xs it = length xs"
  unfolding sortedInsertionRow_def
  using lower_bound_all [of 0 "length xs" "\<lambda>x. precedes order x it" xs]
  by simp

lemma remove_nth_last: "remove_nth (length xs) (xs @ [x]) = xs"
  by (simp add: remove_nth_def)

text \<open>One write into the row below the rows already filled.\<close>

lemma setItem_in_place:
  assumes cells: "t_cells t = P @ [cur] @ R" and c: "c < t_column_count t" "c < length cur"
    and below: "R = [] \<or> cell_at (hd R) c = None"
    and stays: "t_sorting_enabled t \<Longrightarrow> h_sort_indicator_section (t_header t) = int c \<Longrightarrow>
                \<exists>xs. list_all2 (\<lambda>row x. cell_at row c = Some x) P xs \<and>
                     (\<forall>x\<in>set xs. precedes (h_sort_indicator_order (t_header t)) x it)"
  shows "setItem (length P) c it t = t\<lparr> t_cells := P @ [cur[c := Some it]] @ R \<rparr>"
proof -
  have upd: "(t_cells t)[length P := ((t_cells t) ! length P)[c := Some it]] =
               P @ [cur[c := Some it]] @ R"
    by (simp add: cells list_update_append nth_append)
  have inside: "length P < length (t_cells t)"
    by (simp add: cells)
  show ?thesis
  proof (cases "t_sorting_enabled t \<and> h_sort_indicator_section (t_header t) = int c")
    case False
    then show ?thesis
      using inside c(1) upd by (auto simp: setItem_def Let_def)
  next
    case True
    then obtain xs where xs: "list_all2 (\<lambda>row x. cell_at row c = Some x) P xs"
      and prec: "\<forall>x\<in>set xs. precedes (h_sort_indicator_order (t_header t)) x it"
      using stays by blast
    have len: "length xs = length P"
      using xs by (simp add: list_all2_lengthD)
    have tail: "columnItems c R = []"
      using below by (cases R) auto
    have here: "cell_at (cur[c := Some it]) c = Some it"
      using c(2) by (simp add: cell_at_def)
    have col: "columnItems c (P @ cur[c := Some it] # R) = xs @ [it]"
      by (simp add: columnItems_prefix [OF xs] here tail)
    have others: "remove_nth (length P) (xs @ [it]) = xs"
      using remove_nth_last [of xs it] len by simp
    have row: "sortedInsertionRow (h_sort_indicator_order (t_header t)) xs it = length P"
      using sortedInsertionRow_end [of xs "h_sort_indicator_order (t_header t)" it] prec len
      by simp
    show ?thesis
      using True inside c(1)
      by (simp add: setItem_def Let_def upd col len others row)
  qed
qed

lemma fold_set_item_in_place:
  assumes cols: "\<And>c s. (c, s) \<in> set cs \<Longrightarrow> c < t_column_count t \<and> c < n"
    and below: "\<And>c s. (c, s) \<in> set cs \<Longrightarrow> R = [] \<or> cell_at (hd R) c = None"
    and stays: "\<And>c s. (c, s) \<in> set cs \<Longrightarrow> t_sorting_enabled t \<Longrightarrow>
                  h_sort_indicator_section (t_header t) = int c \<Longrightarrow>
                  \<exists>xs. list_all2 (\<lambda>row x. cell_at row c = Some x) P xs \<and>
                       (\<forall>x\<in>set xs. precedes (h_sort_indicator_order (t_header t)) x (Item s True))"
    and len: "length cur = n"
  shows "fold (\<lambda>(c, s). set_item (length P) c s) cs (t\<lparr> t_cells := P @ [cur] @ R \<rparr>) =
         t\<lparr> t_cells := P @ [fold (\<lambda>(c, s) row. row[c := Some (Item s True)]) cs cur] @ R \<rparr>"
  using assms
proof (induction cs arbitrary: cur)
  case Nil
  then show ?case by simp
next
  case (Cons a cs)
  obtain c s where a: "a = (c, s)" by (cases a)
  let ?t = "t\<lparr> t_cells := P @ [cur] @ R \<rparr>"
  have step: "set_item (length P) c s ?t =
                ?t\<lparr> t_cells := P @ [cur[c := Some (Item s True)]] @ R \<rparr>"
    unfolding set_item_def
  proof (rule setItem_in_place)
    show "t_cells ?t = P @ [cur] @ R" by simp
    show "c < t_column_count ?t" using Cons.prems(1) [of c s] a by simp
    show "c < length cur" using Cons.prems(1) [of c s] Cons.prems(4) a by simp
    show "R = [] \<or> cell_at (hd R) c = None" using Cons.prems(2) [of c s] a by simp
    show "\<exists>xs. list_all2 (\<lambda>row x. cell_at row c = Some x) P xs \<and>
            (\<forall>x\<in>set xs. precedes (h_sort_indicator_order (t_header ?t)) x (Item s True))"
      if "t_sorting_enabled ?t" "h_sort_indicator_section (t_header ?t) = int c"
      using Cons.prems(3) [of c s] a that by simp
  qed
  have "fold (\<lambda>(c, s). set_item (length P) c s) cs
          (t\<lparr> t_cells := P @ [cur[c := Some (Item s True)]] @ R \<rparr>) =
        t\<lparr> t_cells := P @ [fold (\<lambda>(c, s) row. row[c := Some (Item s True)]) cs
                                (cur[c := Some (Item s True)])] @ R \<rparr>"
  proof (rule Cons.IH)
    show "c' < t_column_count t \<and> c' < n" if "(c', s') \<in> set cs" for c' s'
      using Cons.prems(1) [of c' s'] that by simp
    show "R = [] \<or> cell_at (hd R) c' = None" if "(c', s') \<in> set cs" for c' s'
      using Cons.prems(2) [of c' s'] that by simp
    show "\<exists>xs. list_all2 (\<lambda>row x. cell_at row c' = Some x) P xs \<and>
            (\<forall>x\<in>set xs. precedes (h_sort_indicator_order (t_header t)) x (Item s' True))"
      if "(c', s') \<in> set cs" "t_sorting_enabled t"
        "h_sort_indicator_section (t_header t) = int c'" for c' s'
      using Cons.prems(3) [of c' s'] that by simp
    show "length (cur[c := Some (Item s True)]) = n"
      using Cons.prems(4) by simp
  qed
  then show ?case
    using step by (simp add: a)
qed

lemma render_row_fold:
  "render_row idx lt r t = fold (\<lambda>(c, s). set_item idx c s) (enumerate 0 (row_texts lt r)) t"
  by (simp add: render_row_def row_texts_def eval_nat_numeral)

lemma row_items_fold:
  "fold (\<lambda>(c, s) row. row[c := Some (Item s True)]) (enumerate 0 (row_texts lt r))
     (replicate 7 None) = row_items lt r"
  by (simp add: row_items_def row_texts_def eval_nat_numeral)

lemma enumerate_row_texts:
  "(c, s) \<in> set (enumerate 0 (row_texts lt r)) \<Longrightarrow> c < 7 \<and> s = row_texts lt r ! c"
  by (auto simp: in_set_enumerate_eq row_texts_def)

lemma length_row_texts: "length (row_texts lt r) = 7"
  by (simp add: row_texts_def)

lemma cell_at_row_items:
  "c < 7 \<Longrightarrow> cell_at (row_items lt r) c = Some (Item (row_texts lt r ! c) True)"
  by (simp add: cell_at_def row_items_def length_row_texts)

lemma cell_at_empty_row: "cell_at (replicate n None) c = None"
  by (simp add: cell_at_def)

text \<open>
  Rendering one row below rows rendered before, when no write moves the row: in the
  column of the sort indicator, the texts of the rows above all precede the new text.
\<close>

lemma render_row_in_place:
  assumes cc: "t_column_count t = 7"
    and stays: "\<And>c d. c < 7 \<Longrightarrow> d \<in> set done \<Longrightarrow> t_sorting_enabled t \<Longrightarrow>
                  h_sort_indicator_section (t_header t) = int c \<Longrightarrow>
                  precedes (h_sort_indicator_order (t_header t))
                    (Item (row_texts (txt d) d ! c) True) (Item (row_texts lt r ! c) True)"
  shows "render_row (length done) lt r
           (t\<lparr> t_cells := map (\<lambda>d. row_items (txt d) d) done @
                            replicate (Suc k) (replicate 7 None) \<rparr>) =
         t\<lparr> t_cells := map (\<lambda>d. row_items (txt d) d) done @ [row_items lt r] @
                          replicate k (replicate 7 None) \<rparr>"
proof -
  let ?P = "map (\<lambda>d. row_items (txt d) d) done"
  let ?R = "replicate k (replicate 7 (None :: item option))"
  have shape: "?P @ replicate (Suc k) (replicate 7 None) = ?P @ [replicate 7 None] @ ?R"
    by simp
  have "fold (\<lambda>(c, s). set_item (length ?P) c s) (enumerate 0 (row_texts lt r))
          (t\<lparr> t_cells := ?P @ [replicate 7 None] @ ?R \<rparr>) =
        t\<lparr> t_cells := ?P @ [fold (\<lambda>(c, s) row. row[c := Some (Item s True)])
                                 (enumerate 0 (row_texts lt r)) (replicate 7 None)] @ ?R \<rparr>"
  proof (rule fold_set_item_in_place [where n = 7])
    fix c s
    assume cs: "(c, s) \<in> set (enumerate 0 (row_texts lt r))"
    then have c: "c < 7" and s: "s = row_texts lt r ! c"
      using enumerate_row_texts by blast+
    show "c < t_column_count t \<and> c < 7"
      using c cc by simp
    show "?R = [] \<or> cell_at (hd ?R) c = None"
      by (cases k) (simp_all add: cell_at_empty_row)
    show "\<exists>xs. list_all2 (\<lambda>row x. cell_at row c = Some x) ?P xs \<and>
            (\<forall>x\<in>set xs. precedes (h_sort_indicator_order (t_header t)) x (Item s True))"
      if "t_sorting_enabled t" "h_sort_indicator_section (t_header t) = int c"
    proof (intro exI conjI)
      show "list_all2 (\<lambda>row x. cell_at row c = Some x) ?P
              (map (\<lambda>d. Item (row_texts (txt d) d ! c) True) done)"
        using c by (simp add: list_all2_conv_all_nth cell_at_row_items)
      show "\<forall>x\<in>set (map (\<lambda>d. Item (row_texts (txt d) d ! c) True) done).
              precedes (h_sort_indicator_order (t_header t)) x (Item s True)"
        using stays [OF c _ that] s by auto
    qed
  qed simp
  then show ?thesis
    unfolding shape by (simp add: render_row_fold row_items_fold)
qed

lemma render_rows_in_place:
  assumes cc: "t_column_count t = 7"
    and lt: "\<And>r. r \<in> set rows \<Longrightarrow> lt (r_time r) = Inr (txt r)"
    and stays: "in_place t txt (done @ rows)"
  shows "render_rows lt (length done) rows
           (t\<lparr> t_cells := map (\<lambda>d. row_items (txt d) d) done @
                            replicate (length rows) (replicate 7 None) \<rparr>) =
         (None, t\<lparr> t_cells := map (\<lambda>d. row_items (txt d) d) (done @ rows) \<rparr>)"
  using lt stays
proof (induction rows arbitrary: "done")
  case Nil
  then show ?case by simp
next
  case (Cons r rs)
  have here: "lt (r_time r) = Inr (txt r)"
    using Cons.prems(1) by simp
  have row: "render_row (length done) (txt r) r
               (t\<lparr> t_cells := map (\<lambda>d. row_items (txt d) d) done @
                                replicate (Suc (length rs)) (replicate 7 None) \<rparr>) =
             t\<lparr> t_cells := map (\<lambda>d. row_items (txt d) d) done @ [row_items (txt r) r] @
                              replicate (length rs) (replicate 7 None) \<rparr>"
  proof (rule render_row_in_place [OF cc])
    fix c d
    assume "c < 7" "d \<in> set done" "t_sorting_enabled t"
      "h_sort_indicator_section (t_header t) = int c"
    then show "precedes (h_sort_indicator_order (t_header t))
                 (Item (row_texts (txt d) d ! c) True) (Item (row_texts (txt r) r ! c) True)"
      using Cons.prems(2) by (auto simp: in_place_def sorted_wrt_append)
  qed
  have "render_rows lt (length (done @ [r])) rs
          (t\<lparr> t_cells := map (\<lambda>d. row_items (txt d) d) (done @ [r]) @
                           replicate (length rs) (replicate 7 None) \<rparr>) =
        (None, t\<lparr> t_cells := map (\<lambda>d. row_items (txt d) d) ((done @ [r]) @ rs) \<rparr>)"
    by (rule Cons.IH) (use Cons.prems in simp_all)
  then show ?case
    using here row by simp
qed

lemma rebuild_table_in_place:
  assumes cc: "t_column_count t = 7" and rows: "rows \<noteq> []"
    and lt: "\<And>r. r \<in> set rows \<Longrightarrow> localtime e (r_time r) = Inr (txt r)"
    and stays: "in_place t txt rows"
  shows "rebuild_table e rows t =
           (None, t\<lparr> t_cells := map (\<lambda>d. row_items (txt d) d) rows, t_spans := [] \<rparr>)"
proof -
  let ?t = "t\<lparr> t_spans := [] \<rparr>"
  have start: "setRowCount (length rows) (setRowCount 0 t) =
                 ?t\<lparr> t_cells := map (\<lambda>d. row_items (txt d) d) [] @
                                  replicate (length rows) (replicate 7 None) \<rparr>"
    by (simp add: setRowCount_def cc)
  have "render_rows (localtime e) (length ([] :: row list)) rows
          (?t\<lparr> t_cells := map (\<lambda>d. row_items (txt d) d) [] @
                           replicate (length rows) (replicate 7 None) \<rparr>) =
        (None, ?t\<lparr> t_cells := map (\<lambda>d. row_items (txt d) d) ([] @ rows) \<rparr>)"
    by (rule render_rows_in_place) (use cc lt stays in \<open>simp_all add: in_place_def\<close>)
  then show ?thesis
    using rows by (simp add: rebuild_table_def Let_def start)
qed

section \<open>The fetch phase\<close>

lemma fetch_rows_close_fails: "db_close e = Some err \<Longrightarrow> fetch_rows e u = (Inl err, u)"
  by (simp add: fetch_rows_def)

lemma fetch_rows_alerts_fail:
  "db_close e = None \<Longrightarrow> alerts_query e = Inl err \<Longrightarrow> fetch_rows e u = (Inl err, u)"
  by (simp add: fetch_rows_def)

lemma fetch_rows_ok:
  "db_close e = None \<Longrightarrow> alerts_query e = Inr alerts \<Longrightarrow>
   quarantine_query e (window_start e) = Inr qs \<Longrightarrow>
   fst (fetch_rows e u) =
     Inr (merge_rows (map (alert_row (build_process_chain e)) alerts) (map quarantine_row qs))"
  by (simp add: fetch_rows_def Let_def)

lemma fetch_rows_quarantine_fails:
  "db_close e = None \<Longrightarrow> alerts_query e = Inr alerts \<Longrightarrow>
   quarantine_query e (window_start e) = Inl err \<Longrightarrow>
   fst (fetch_rows e u) = Inr (merge_rows (map (alert_row (build_process_chain e)) alerts) [])"
  by (simp add: fetch_rows_def Let_def)

lemma fetch_rows_table: "u_table (snd (fetch_rows e u)) = u_table u"
  by (simp add: fetch_rows_def Let_def log_msg_def split: option.splits sum.splits)

lemma set_merge_rows: "set (merge_rows xs ys) = set xs \<union> set ys"
  by (auto simp: merge_rows_def sort_reverse_def)

lemma alert_row_fetched:
  assumes "db_close e = None" "alerts_query e = Inr alerts" "a \<in> set alerts"
  shows "\<exists>rows. fst (fetch_rows e u) = Inr rows \<and> alert_row (build_process_chain e) a \<in> set rows"
proof (cases "quarantine_query e (window_start e)")
  case (Inl err)
  then show ?thesis
    using assms by (simp add: fetch_rows_quarantine_fails set_merge_rows)
next
  case (Inr qs)
  then show ?thesis
    using assms by (simp add: fetch_rows_ok set_merge_rows)
qed

lemma example_alerts_query: "alerts_query example_env = Inr [example_alert]"
  by (simp add: alerts_query_def example_env_def order_by_desc_def)

section \<open>Quarantine rows\<close>

lemma quarantine_row_fetched:
  assumes "db_close e = None" "alerts_query e = Inr alerts"
    "quarantine_query e (window_start e) = Inr qs" "q \<in> set qs"
  shows "\<exists>rows. fst (fetch_rows e u) = Inr rows \<and> quarantine_row q \<in> set rows"
  using assms by (simp add: fetch_rows_ok set_merge_rows)

text \<open>
  Claim C9. The row built from a quarantine record has the record's detection time,
  type \<open>Quarantine\<close>, severity \<open>high\<close>, details \<open>File quarantined: <filename>\<close>,
  and empty source, destination and process chain, whatever further fields the record
  carries. For a record the quarantine query returned, that row is among the rows of the
  cycle; and rendering it is handing exactly these texts to \<open>_set_item\<close>, column by
  column.
\<close>

theorem quarantine_row_fields:
  assumes fetched: "db_close e = None" "alerts_query e = Inr alerts"
    "quarantine_query e (window_start e) = Inr qs" "q \<in> set qs"
  shows "quarantine_row q' =
           \<lparr> r_time = q_detected_at q', r_type = ''Quarantine'', r_severity = ''high'',
             r_src = '''', r_dst = '''', r_details = ''File quarantined: '' @ q_filename q',
             r_process_chain = '''' \<rparr> \<and>
         (\<exists>rows. fst (fetch_rows e u) = Inr rows \<and> quarantine_row q \<in> set rows) \<and>
         render_row idx lt (quarantine_row q) t =
           set_item idx 6 ''''
             (set_item idx 5 (''File quarantined: '' @ q_filename q)
               (set_item idx 4 ''''
                 (set_item idx 3 ''''
                   (set_item idx 2 ''high''
                     (set_item idx 1 ''Quarantine''
                       (set_item idx 0 lt t))))))"
  using quarantine_row_fetched [OF fetched]
  by (simp add: quarantine_row_def render_row_def)

lemma example_quarantine_query:
  "quarantine_query example_env (window_start example_env) = Inr [example_quarantine]"
  by (simp add: quarantine_query_def example_env_def order_by_desc_def window_start_def
      in_window_def example_quarantine_def)

theorem quarantine_row_fields_witness:
  "quarantine_row example_quarantine =
     \<lparr> r_time = 1500, r_type = ''Quarantine'', r_severity = ''high'', r_src = '''',
       r_dst = '''', r_details = ''File quarantined: invoice.exe'', r_process_chain = '''' \<rparr> \<and>
   fst (fetch_rows example_env example_ui) =
     Inr (merge_rows (map (alert_row (build_process_chain example_env)) [example_alert])
            (map quarantine_row [example_quarantine])) \<and>
   example_quarantine \<in> set [example_quarantine]"
proof -
  have fetched: "db_close example_env = None" "alerts_query example_env = Inr [example_alert]"
    "quarantine_query example_env (window_start example_env) = Inr [example_quarantine]"
    "example_quarantine \<in> set [example_quarantine]"
    by (simp_all add: example_alerts_query example_quarantine_query) (simp add: example_env_def)
  have fields: "q_detected_at example_quarantine = 1500"
    "q_filename example_quarantine = ''invoice.exe''"
    by (simp_all add: example_quarantine_def)
  show ?thesis
    using quarantine_row_fields [OF fetched, where q' = example_quarantine and u = example_ui,
        THEN conjunct1] fields fetch_rows_ok [OF fetched(1-3), of example_ui]
    by simp
qed

section \<open>Destination\<close>

lemma alert_dst_from_connection:
  "a_connection a = Some c \<Longrightarrow> c_dst_ip c = Some ip \<Longrightarrow> ip \<noteq> [] \<Longrightarrow>
   alert_dst a = ip @ '':'' @ fmt_int (c_dst_port c)"
  by (simp add: alert_dst_def)

lemma alert_dst_own:
  "(case a_connection a of None \<Rightarrow> True | Some c \<Rightarrow> \<not> truthy_str (c_dst_ip c)) \<Longrightarrow>
   alert_dst a =
     (if truthy_str (a_dst_ip a)
      then (if truthy_int (a_dst_port a) then the (a_dst_ip a) @ '':'' @ str_int (the (a_dst_port a))
            else the (a_dst_ip a))
      else '''')"
  by (cases "a_dst_ip a"; cases "a_dst_port a")
     (auto simp: alert_dst_def alert_own_dst_def split: option.splits)

text \<open>
  Claim C3, at a concrete alert: neither the alert nor its connection has a destination
  port, the connection has a destination address. The connection branch formats the
  absent port into the string, so the destination reads \<open>10.0.0.5:None\<close>: it carries
  the port separator, where the claim says it has none. The two lemmas above give what
  the code computes in general.
\<close>

theorem alert_dst_connection_without_port:
  "a_dst_port example_alert = None \<and>
   a_connection example_alert = Some example_connection \<and>
   c_dst_port example_connection = None \<and>
   alert_dst example_alert = ''10.0.0.5:None'' \<and>
   r_dst (alert_row failing_lookup example_alert) = ''10.0.0.5:None''"
  by (simp add: alert_row_def alert_dst_def example_alert_def example_connection_def)

section \<open>The empty timeline\<close>

lemma fetch_rows_empty:
  assumes "db_close e = None" "alerts_query e = Inr []"
    "case quarantine_query e (window_start e) of Inr qs \<Rightarrow> qs = [] | Inl err \<Rightarrow> True"
  shows "fst (fetch_rows e u) = Inr []"
  using assms
  by (cases "quarantine_query e (window_start e)")
     (simp_all add: fetch_rows_ok fetch_rows_quarantine_fails merge_rows_def sort_reverse_def)

lemma refresh_try_rebuild:
  "fst (fetch_rows e u) = Inr rows \<Longrightarrow>
   u_table (snd (refresh_try e u)) = snd (rebuild_table e rows (u_table u)) \<and>
   fst (refresh_try e u) = fst (rebuild_table e rows (u_table u))"
  using fetch_rows_table [of e u]
  by (cases "fetch_rows e u") (simp add: refresh_try_def split: prod.splits)

lemma refresh_table: "u_table (refresh e u) = u_table (snd (refresh_try e u))"
  by (cases "refresh_try e u") (simp add: refresh_def log_msg_def split: option.splits)

text \<open>
  Claim C8. When the alert query returns no alert and the quarantine query returns no
  record (or raises, which also adds no row), a refresh of a seven-column table leaves
  exactly one row: its first cell holds the empty-state message, the other cells hold
  no item, and one span starts at that cell and covers one row and seven columns.
\<close>

theorem no_events_single_spanning_row:
  assumes "db_close e = None" "alerts_query e = Inr []"
    "case quarantine_query e (window_start e) of Inr qs \<Rightarrow> qs = [] | Inl err \<Rightarrow> True"
    "t_column_count (u_table u) = 7"
  shows "rowCount (u_table (refresh e u)) = 1 \<and>
         t_cells (u_table (refresh e u)) =
           [[Some (Item ''No security events found.'' False), None, None, None, None, None, None]] \<and>
         t_spans (u_table (refresh e u)) = [(0, 0, 1, 7)]"
proof -
  let ?t = "u_table u"
  let ?it = "Item ''No security events found.'' False"
  let ?t1 = "?t\<lparr> t_cells := [replicate 7 None], t_spans := [] \<rparr>"
  have "fst (fetch_rows e u) = Inr []"
    using assms(1-3) by (rule fetch_rows_empty)
  then have table: "u_table (refresh e u) = snd (rebuild_table e [] ?t)"
    by (simp add: refresh_table refresh_try_rebuild)
  have start: "setRowCount (Suc 0) (setRowCount 0 ?t) = ?t1"
    using assms(4) by (simp add: setRowCount_def)
  have "setItem (length ([] :: item option list list)) 0 ?it ?t1 =
          ?t1\<lparr> t_cells := [] @ [(replicate 7 None)[0 := Some ?it]] @ [] \<rparr>"
    by (rule setItem_in_place) (use assms(4) in simp_all)
  then have item: "setItem 0 0 ?it ?t1 =
          ?t\<lparr> t_cells := [[Some ?it, None, None, None, None, None, None]], t_spans := [] \<rparr>"
    by (simp add: eval_nat_numeral)
  have "snd (rebuild_table e [] ?t) = setSpan 0 0 1 7 (setItem 0 0 ?it ?t1)"
    by (simp add: rebuild_table_def Let_def start)
  then show ?thesis
    unfolding table item by (simp add: setSpan_def rowCount_def)
qed

theorem no_events_single_spanning_row_witness:
  "rowCount (u_table (refresh empty_env example_ui)) = 1 \<and>
   t_cells (u_table (refresh empty_env example_ui)) =
     [[Some (Item ''No security events found.'' False), None, None, None, None, None, None]] \<and>
   t_spans (u_table (refresh empty_env example_ui)) = [(0, 0, 1, 7)]"
proof -
  have close: "db_close empty_env = None"
    by (simp add: empty_env_def example_env_def)
  have alerts: "alerts_query empty_env = Inr []"
    by (simp add: alerts_query_def empty_env_def example_env_def order_by_desc_def)
  have quarantine: "case quarantine_query empty_env (window_start empty_env) of
                      Inr qs \<Rightarrow> qs = [] | Inl err \<Rightarrow> True"
    by (simp add: quarantine_query_def empty_env_def example_env_def order_by_desc_def)
  have columns: "t_column_count (u_table example_ui) = 7"
    by (simp add: example_ui_def setRowCount_def example_table_def)
  show ?thesis
    by (rule no_events_single_spanning_row [OF close alerts quarantine columns])
qed

section \<open>Failures of the refresh cycle\<close>

text \<open>
  Claim C1, as the code has it. \<open>refresh\<close> is a function from states to states:
  whatever is raised inside the \<open>try\<close> body, it returns. An exception that leaves the
  body (one that no inner handler absorbs) is logged at error level with its text. When it
  is raised before the table is rebuilt, that is in the fetch phase, by closing the
  connection or by the alert query, the table is left exactly as it was.
\<close>

theorem refresh_failure_logged_table_kept:
  "(db_close e = Some err \<or> (db_close e = None \<and> alerts_query e = Inl err) \<longrightarrow>
      u_table (refresh e u) = u_table u \<and>
      u_log (refresh e u) =
        u_log u @ [(ERROR, ''Error refreshing threat timeline: '' @ message_of err)]) \<and>
   (fst (fetch_rows e u) = Inl err \<longrightarrow>
      fst (refresh_try e u) = Some err \<and> u_table (refresh e u) = u_table u) \<and>
   (fst (refresh_try e u) = Some err \<longrightarrow>
      u_log (refresh e u) =
        u_log (snd (refresh_try e u)) @
          [(ERROR, ''Error refreshing threat timeline: '' @ message_of err)])"
proof (intro conjI impI)
  assume "db_close e = Some err \<or> (db_close e = None \<and> alerts_query e = Inl err)"
  then have "fetch_rows e u = (Inl err, u)"
    by (auto simp: fetch_rows_close_fails fetch_rows_alerts_fail)
  then have r: "refresh e u = log_msg ERROR (''Error refreshing threat timeline: '' @ message_of err) u"
    by (simp add: refresh_def refresh_try_def)
  show "u_table (refresh e u) = u_table u" by (simp add: r log_msg_def)
  show "u_log (refresh e u) =
        u_log u @ [(ERROR, ''Error refreshing threat timeline: '' @ message_of err)]"
    by (simp add: r log_msg_def)
next
  assume f: "fst (fetch_rows e u) = Inl err"
  then show "fst (refresh_try e u) = Some err"
    by (cases "fetch_rows e u") (simp add: refresh_try_def)
  have "u_table (snd (refresh_try e u)) = u_table (snd (fetch_rows e u))"
    using f by (cases "fetch_rows e u") (simp add: refresh_try_def)
  then show "u_table (refresh e u) = u_table u"
    by (simp add: refresh_table fetch_rows_table)
next
  assume "fst (refresh_try e u) = Some err"
  then show "u_log (refresh e u) =
        u_log (snd (refresh_try e u)) @
          [(ERROR, ''Error refreshing threat timeline: '' @ message_of err)]"
    by (cases "refresh_try e u") (simp add: refresh_def log_msg_def)
qed

lemma naive_time_refresh_try:
  "fst (refresh_try naive_time_env example_ui) = Some (Exception ''naive datetime'')"
proof -
  have close: "db_close naive_time_env = None"
    by (simp add: naive_time_env_def example_env_def)
  have alerts: "alerts_query naive_time_env = Inr [example_alert]"
    by (simp add: alerts_query_def naive_time_env_def example_env_def order_by_desc_def)
  have quarantine: "quarantine_query naive_time_env (window_start naive_time_env) =
                      Inr [example_quarantine]"
    by (simp add: quarantine_query_def naive_time_env_def example_env_def order_by_desc_def
        window_start_def in_window_def example_quarantine_def)
  have lt: "localtime naive_time_env = (\<lambda>t. Inl (Exception ''naive datetime''))"
    by (simp add: naive_time_env_def)
  have "length (merge_rows (map (alert_row (build_process_chain naive_time_env)) [example_alert])
                    (map quarantine_row [example_quarantine])) = 2"
    by (simp add: merge_rows_def length_sort_reverse)
  then obtain r rs where rows:
    "merge_rows (map (alert_row (build_process_chain naive_time_env)) [example_alert])
       (map quarantine_row [example_quarantine]) = r # rs"
    by (cases "merge_rows (map (alert_row (build_process_chain naive_time_env)) [example_alert])
                 (map quarantine_row [example_quarantine])") auto
  have "fst (fetch_rows naive_time_env example_ui) = Inr (r # rs)"
    using fetch_rows_ok [OF close alerts quarantine] rows by simp
  then have "fst (refresh_try naive_time_env example_ui) =
               fst (rebuild_table naive_time_env (r # rs) (u_table example_ui))"
    by (simp add: refresh_try_rebuild)
  then show ?thesis
    by (simp add: rebuild_table_def lt)
qed

theorem refresh_failure_logged_table_kept_witness:
  "u_table (refresh failing_env example_ui) = u_table example_ui \<and>
   u_log (refresh failing_env example_ui) =
     [(ERROR, ''Error refreshing threat timeline: connection lost'')] \<and>
   fst (refresh_try failing_env example_ui) = Some (Exception ''connection lost'') \<and>
   u_log (refresh naive_time_env example_ui) =
     u_log (snd (refresh_try naive_time_env example_ui)) @
       [(ERROR, ''Error refreshing threat timeline: naive datetime'')]"
proof -
  have close: "db_close failing_env = Some (Exception ''connection lost'')"
    by (simp add: failing_env_def)
  have fetch: "fst (fetch_rows failing_env example_ui) = Inl (Exception ''connection lost'')"
    by (simp add: fetch_rows_close_fails [OF close])
  have lg: "u_log example_ui = []"
    by (simp add: example_ui_def)
  show ?thesis
    using refresh_failure_logged_table_kept [of failing_env "Exception ''connection lost''" example_ui]
      refresh_failure_logged_table_kept [of naive_time_env "Exception ''naive datetime''" example_ui]
      close fetch lg naive_time_refresh_try
    by simp
qed

lemma example_rows:
  "fst (fetch_rows example_env example_ui) =
     Inr [quarantine_row example_quarantine, alert_row failing_lookup example_alert]"
proof -
  have close: "db_close example_env = None"
    by (simp add: example_env_def)
  have b: "build_process_chain example_env = failing_lookup"
    by (simp add: example_env_def)
  have "merge_rows (map (alert_row failing_lookup) [example_alert])
          (map quarantine_row [example_quarantine]) =
        [quarantine_row example_quarantine, alert_row failing_lookup example_alert]"
    by (simp add: merge_rows_def sort_reverse_def alert_row_def quarantine_row_def
        example_alert_def example_quarantine_def)
  then show ?thesis
    using fetch_rows_ok [OF close example_alerts_query example_quarantine_query, of example_ui]
    by (simp add: b)
qed

lemma example_log:
  "u_log (snd (fetch_rows example_env example_ui)) = [(INFO, ''Threat timeline: found 1 alerts'')]"
proof -
  have close: "db_close example_env = None"
    by (simp add: example_env_def)
  have n: "str_nat (Suc 0) = ''1''"
    by (simp add: str_nat.simps digit_char_def)
  show ?thesis
    by (simp add: fetch_rows_def close example_alerts_query example_quarantine_query
        log_msg_def example_ui_def n)
qed

lemma str_int_examples:
  "str_int 4120 = ''4120''" "str_int 1500 = ''1500''" "str_int 1000 = ''1000''"
  by (simp_all add: str_int_def str_nat.simps digit_char_def)

lemma example_ui_table:
  "t_column_count (u_table example_ui) = 7"
  "t_sorting_enabled (u_table example_ui)"
  "h_sort_indicator_section (t_header (u_table example_ui)) = 0"
  "h_sort_indicator_order (t_header (u_table example_ui)) = DescendingOrder"
  "t_cells (u_table example_ui) = [replicate 7 None, replicate 7 None]"
  by (simp_all add: example_ui_def setRowCount_def example_table_def example_header_def
      eval_nat_numeral)

text \<open>
  Claim C1 as stated covers every exception raised during the cycle. It fails for an
  exception that an inner handler absorbs: in the example environment the ancestry
  lookup raises while the alert's row is built, before the table is rebuilt; the row gets
  \<open>PID 4120\<close>, no exception leaves the \<open>try\<close> body, the log holds the info line only (the
  exception is not logged), and the table is rebuilt (the cell that held no item now reads
  \<open>Quarantine\<close>).
\<close>

theorem swallowed_lookup_failure_not_logged:
  "build_process_chain example_env 4120 = Inl (Exception ''process not found'') \<and>
   r_process_chain (alert_row (build_process_chain example_env) example_alert) = ''PID 4120'' \<and>
   fst (refresh_try example_env example_ui) = None \<and>
   u_log (refresh example_env example_ui) = [(INFO, ''Threat timeline: found 1 alerts'')] \<and>
   t_cells (u_table example_ui) ! 0 ! 1 = None \<and>
   t_cells (u_table (refresh example_env example_ui)) ! 0 ! 1 = Some (Item ''Quarantine'' True)"
proof -
  let ?q = "quarantine_row example_quarantine"
  let ?a = "alert_row failing_lookup example_alert"
  let ?txt = "\<lambda>r. str_int (r_time r)"
  have b: "build_process_chain example_env = failing_lookup"
    by (simp add: example_env_def)
  have lookup: "build_process_chain example_env 4120 = Inl (Exception ''process not found'')"
    by (simp add: b failing_lookup_def)
  have chain: "r_process_chain ?a = ''PID 4120''"
    by (simp add: alert_row_def alert_chain_def example_alert_def example_connection_def
        failing_lookup_def str_int_examples)
  have times: "r_time ?q = 1500" "r_time ?a = 1000"
    by (simp_all add: quarantine_row_def alert_row_def example_quarantine_def example_alert_def)
  have lt: "localtime example_env (r_time r) = Inr (?txt r)" for r :: row
    by (simp add: example_env_def utc_text_def)
  have stays: "in_place (u_table example_ui) ?txt [?q, ?a]"
    by (simp add: in_place_def example_ui_table row_texts_def times str_int_examples
        precedes_def item_less_def)
  have rebuild: "rebuild_table example_env [?q, ?a] (u_table example_ui) =
                   (None, (u_table example_ui)
                            \<lparr> t_cells := map (\<lambda>d. row_items (?txt d) d) [?q, ?a], t_spans := [] \<rparr>)"
    by (rule rebuild_table_in_place [OF example_ui_table(1) _ lt stays]) simp
  have try_fst: "fst (refresh_try example_env example_ui) = None"
    using refresh_try_rebuild [OF example_rows] rebuild by simp
  have try_table: "u_table (snd (refresh_try example_env example_ui)) =
                     (u_table example_ui)
                       \<lparr> t_cells := map (\<lambda>d. row_items (?txt d) d) [?q, ?a], t_spans := [] \<rparr>"
    using refresh_try_rebuild [OF example_rows] rebuild by simp
  have try_log: "u_log (snd (refresh_try example_env example_ui)) =
                   u_log (snd (fetch_rows example_env example_ui))"
    by (cases "fetch_rows example_env example_ui")
       (simp add: refresh_try_def split: sum.splits prod.splits)
  have refresh_eq: "refresh example_env example_ui = snd (refresh_try example_env example_ui)"
    using try_fst by (cases "refresh_try example_env example_ui") (simp add: refresh_def)
  have cell: "row_items (?txt ?q) ?q ! 1 = Some (Item ''Quarantine'' True)"
    by (simp add: row_items_def row_texts_def quarantine_row_def)
  have before: "t_cells (u_table example_ui) ! 0 ! 1 = None"
    by (simp add: example_ui_table)
  show ?thesis
    using lookup chain try_fst before cell
    by (simp add: b refresh_eq try_table try_log example_log)
qed

section \<open>What a refresh draws from storage\<close>









section \<open>Rows that share a display time\<close>

lemma refresh_in_place:
  assumes fetch: "fst (fetch_rows e u) = Inr rows" and rows: "rows \<noteq> []"
    and cc: "t_column_count (u_table u) = 7"
    and lt: "\<And>r. r \<in> set rows \<Longrightarrow> localtime e (r_time r) = Inr (txt r)"
    and stays: "in_place (u_table u) txt rows"
  shows "fst (refresh_try e u) = None \<and>
         u_table (refresh e u) =
           (u_table u)\<lparr> t_cells := map (\<lambda>d. row_items (txt d) d) rows, t_spans := [] \<rparr>"
  using refresh_try_rebuild [OF fetch] rebuild_table_in_place [OF cc rows lt stays]
  by (simp add: refresh_table)

text \<open>
  Where no write moves a row, the row of an alert shows what was built for it: \<open>PID <id>\<close>
  for a lookup that raised, and the defaults for the fields the alert lacks.
\<close>

lemma chain_cell_in_place:
  assumes fetch: "fst (fetch_rows e u) = Inr rows" and rows: "rows \<noteq> []"
    and cc: "t_column_count (u_table u) = 7"
    and lt: "\<And>r. r \<in> set rows \<Longrightarrow> localtime e (r_time r) = Inr (txt r)"
    and stays: "in_place (u_table u) txt rows"
    and at: "i < length rows" "rows ! i = alert_row (build_process_chain e) a"
    and pid: "a_connection a = Some c" "c_pid c = Some pid" "pid \<noteq> 0"
    and fails: "build_process_chain e pid = Inl err"
  shows "t_cells (u_table (refresh e u)) ! i ! 6 = Some (Item (''PID '' @ str_int pid) True)"
proof -
  have "r_process_chain (alert_row (build_process_chain e) a) = ''PID '' @ str_int pid"
    using pid fails by (simp add: alert_row_def alert_chain_def)
  then show ?thesis
    using refresh_in_place [OF fetch rows cc lt stays] at
    by (simp add: row_items_def row_texts_def)
qed

lemma default_cells_in_place:
  assumes fetch: "fst (fetch_rows e u) = Inr rows" and rows: "rows \<noteq> []"
    and cc: "t_column_count (u_table u) = 7"
    and lt: "\<And>r. r \<in> set rows \<Longrightarrow> localtime e (r_time r) = Inr (txt r)"
    and stays: "in_place (u_table u) txt rows"
    and at: "i < length rows" "rows ! i = alert_row (build_process_chain e) a"
  shows "(\<not> truthy_str (a_alert_type a) \<longrightarrow>
            t_cells (u_table (refresh e u)) ! i ! 1 = Some (Item ''Alert'' True)) \<and>
         (\<not> truthy_str (a_severity a) \<longrightarrow>
            t_cells (u_table (refresh e u)) ! i ! 2 = Some (Item '''' True)) \<and>
         (\<not> truthy_str (a_message a) \<longrightarrow>
            t_cells (u_table (refresh e u)) ! i ! 5 = Some (Item '''' True))"
proof -
  have absent: "\<not> truthy_str x \<Longrightarrow> or_str x d = d" for x d
    by (cases x) auto
  show ?thesis
    using refresh_in_place [OF fetch rows cc lt stays] at
    by (simp add: row_items_def row_texts_def alert_row_def absent)
qed

lemma first_alert_row:
  "alert_row failing_lookup example_alert =
     \<lparr> r_time = 1000, r_type = ''Alert'', r_severity = '''', r_src = ''192.168.1.20'',
       r_dst = ''10.0.0.5:None'', r_details = '''', r_process_chain = ''PID 4120'' \<rparr>"
  by (simp add: alert_row_def alert_src_def alert_dst_def alert_chain_def example_alert_def
      example_connection_def failing_lookup_def str_int_examples)

lemma second_alert_row:
  "alert_row failing_lookup second_alert =
     \<lparr> r_time = 1000, r_type = ''portscan'', r_severity = ''low'', r_src = ''10.0.0.9'',
       r_dst = '''', r_details = ''scan from 10.0.0.9'', r_process_chain = '''' \<rparr>"
  by (simp add: alert_row_def alert_src_def alert_dst_def alert_own_dst_def alert_chain_def
      second_alert_def)

lemma burst_rows:
  "fst (fetch_rows burst_env example_ui) =
     Inr [alert_row failing_lookup example_alert, alert_row failing_lookup second_alert]"
proof -
  have close: "db_close burst_env = None"
    by (simp add: burst_env_def example_env_def)
  have b: "build_process_chain burst_env = failing_lookup"
    by (simp add: burst_env_def example_env_def)
  have alerts: "alerts_query burst_env = Inr [example_alert, second_alert]"
    by (simp add: alerts_query_def burst_env_def example_env_def order_by_desc_def
        example_alert_def second_alert_def)
  have quarantine: "quarantine_query burst_env (window_start burst_env) = Inr []"
    by (simp add: quarantine_query_def burst_env_def example_env_def order_by_desc_def)
  have "merge_rows (map (alert_row failing_lookup) [example_alert, second_alert])
          (map quarantine_row []) =
        [alert_row failing_lookup example_alert, alert_row failing_lookup second_alert]"
    by (simp add: merge_rows_def sort_reverse_def first_alert_row second_alert_row)
  then show ?thesis
    using fetch_rows_ok [OF close alerts quarantine, of example_ui] by (simp add: b)
qed

lemma lower_bound_one:
  "lower_bound p xs first (Suc 0) = (if p (xs ! first) then Suc first else first)"
  by (subst lower_bound.simps) (simp add: lower_bound.simps [of _ _ _ 0])

text \<open>
  The second row carries the same time text as the first: its time item is inserted
  above the first row, and the six writes that follow go into the row of the first alert.
\<close>

lemma burst_table:
  "rebuild_table burst_env
     [alert_row failing_lookup example_alert, alert_row failing_lookup second_alert]
     (u_table example_ui) =
   (None, (u_table example_ui)
      \<lparr> t_cells :=
           [[Some (Item ''1000'' True), None, None, None, None, None, None],
            [Some (Item ''1000'' True), Some (Item ''portscan'' True), Some (Item ''low'' True),
             Some (Item ''10.0.0.9'' True), Some (Item '''' True),
             Some (Item ''scan from 10.0.0.9'' True), Some (Item '''' True)]],
         t_spans := [] \<rparr>)"
proof -
  let ?B = "(u_table example_ui)\<lparr> t_spans := [] \<rparr>"
  let ?a = "alert_row failing_lookup example_alert"
  let ?b = "alert_row failing_lookup second_alert"
  let ?none = "replicate 7 (None :: item option)"
  let ?ia = "[Some (Item ''1000'' True), Some (Item ''Alert'' True), Some (Item '''' True),
              Some (Item ''192.168.1.20'' True), Some (Item ''10.0.0.5:None'' True),
              Some (Item '''' True), Some (Item ''PID 4120'' True)]"
  let ?top = "[Some (Item ''1000'' True), None, None, None, None, None, None]"
  let ?ib = "[Some (Item ''1000'' True), Some (Item ''portscan'' True), Some (Item ''low'' True),
              Some (Item ''10.0.0.9'' True), Some (Item '''' True),
              Some (Item ''scan from 10.0.0.9'' True), Some (Item '''' True)]"
  have lt: "localtime burst_env t = Inr (str_int t)" for t
    by (simp add: burst_env_def example_env_def utc_text_def)
  have B: "t_column_count ?B = 7" "t_sorting_enabled ?B"
    "h_sort_indicator_section (t_header ?B) = 0"
    "h_sort_indicator_order (t_header ?B) = DescendingOrder"
    by (simp_all add: example_ui_table)
  have start: "setRowCount (Suc (Suc 0)) (setRowCount 0 (u_table example_ui)) =
                 ?B\<lparr> t_cells := [?none, ?none] \<rparr>"
    by (simp add: setRowCount_def example_ui_table)
  have "render_row (length ([] :: row list)) ''1000'' ?a
          (?B\<lparr> t_cells := map (\<lambda>d. row_items (str_int (r_time d)) d) [] @
                           replicate (Suc (Suc 0)) ?none \<rparr>) =
        ?B\<lparr> t_cells := map (\<lambda>d. row_items (str_int (r_time d)) d) [] @ [row_items ''1000'' ?a] @
                        replicate (Suc 0) ?none \<rparr>"
    by (rule render_row_in_place) (simp_all add: B)
  then have first: "render_row 0 ''1000'' ?a (?B\<lparr> t_cells := [?none, ?none] \<rparr>) =
                      ?B\<lparr> t_cells := [?ia, ?none] \<rparr>"
    by (simp add: row_items_def row_texts_def first_alert_row)
  have moved: "set_item (Suc 0) 0 ''1000'' (?B\<lparr> t_cells := [?ia, ?none] \<rparr>) =
                 ?B\<lparr> t_cells := [?top, ?ia] \<rparr>"
    by (simp add: set_item_def setItem_def Let_def example_ui_table cell_at_def remove_nth_def
        sortedInsertionRow_def lower_bound_one precedes_def item_less_def move_row_def
        eval_nat_numeral)
  have second: "render_row (Suc 0) ''1000'' ?b (?B\<lparr> t_cells := [?ia, ?none] \<rparr>) =
                  ?B\<lparr> t_cells := [?top, ?ib] \<rparr>"
    unfolding render_row_def moved
    by (simp add: set_item_def setItem_def example_ui_table second_alert_row eval_nat_numeral)
  have times: "r_time ?a = 1000" "r_time ?b = 1000"
    by (simp_all add: first_alert_row second_alert_row)
  have "rebuild_table burst_env [?a, ?b] (u_table example_ui) =
          (None, ?B\<lparr> t_cells := [?top, ?ib] \<rparr>)"
    by (simp add: rebuild_table_def Let_def start lt times str_int_examples first second)
  then show ?thesis
    by simp
qed

lemma burst_refresh:
  "fst (refresh_try burst_env example_ui) = None \<and>
   t_cells (u_table (refresh burst_env example_ui)) =
     [[Some (Item ''1000'' True), None, None, None, None, None, None],
      [Some (Item ''1000'' True), Some (Item ''portscan'' True), Some (Item ''low'' True),
       Some (Item ''10.0.0.9'' True), Some (Item '''' True),
       Some (Item ''scan from 10.0.0.9'' True), Some (Item '''' True)]]"
  using refresh_try_rebuild [OF burst_rows] burst_table
  by (simp add: refresh_table)

text \<open>
  Claim C7, at a concrete input. Two alerts carry the same time; the first has a
  connection with pid 4120 whose ancestry lookup raises. The exception does not leave the
  \<open>try\<close> body, and the row built for that alert holds \<open>PID 4120\<close>. But the table (sorting
  enabled, as the widget enables it; the sort indicator on the time column, descending)
  shows no such cell: the process-chain column holds no item in the first row and the
  empty text of the second alert in the second row.
\<close>

theorem burst_loses_pid_cell:
  "a_connection example_alert = Some example_connection \<and>
   c_pid example_connection = Some 4120 \<and>
   build_process_chain burst_env 4120 = Inl (Exception ''process not found'') \<and>
   fst (fetch_rows burst_env example_ui) =
     Inr [alert_row (build_process_chain burst_env) example_alert,
          alert_row (build_process_chain burst_env) second_alert] \<and>
   r_process_chain (alert_row (build_process_chain burst_env) example_alert) = ''PID 4120'' \<and>
   fst (refresh_try burst_env example_ui) = None \<and>
   map (\<lambda>row. row ! 6) (t_cells (u_table (refresh burst_env example_ui))) =
     [None, Some (Item '''' True)]"
proof -
  have b: "build_process_chain burst_env = failing_lookup"
    by (simp add: burst_env_def example_env_def)
  have fields: "a_connection example_alert = Some example_connection"
    "c_pid example_connection = Some 4120"
    by (simp_all add: example_alert_def example_connection_def)
  show ?thesis
    using burst_rows burst_refresh fields
    by (simp add: b first_alert_row failing_lookup_def)
qed

text \<open>
  Claim C10, at the same input. The first alert has no type, severity or message, and the
  row built for it holds \<open>Alert\<close> and two empty texts. The table shows no such cells: the
  Type, Severity and Details columns hold no item in the first row, and the texts of the
  second alert in the second row.
\<close>

theorem burst_loses_default_cells:
  "a_alert_type example_alert = None \<and> a_severity example_alert = None \<and>
   a_message example_alert = None \<and>
   r_type (alert_row (build_process_chain burst_env) example_alert) = ''Alert'' \<and>
   r_severity (alert_row (build_process_chain burst_env) example_alert) = '''' \<and>
   r_details (alert_row (build_process_chain burst_env) example_alert) = '''' \<and>
   map (\<lambda>row. [row ! 1, row ! 2, row ! 5]) (t_cells (u_table (refresh burst_env example_ui))) =
     [[None, None, None],
      [Some (Item ''portscan'' True), Some (Item ''low'' True),
       Some (Item ''scan from 10.0.0.9'' True)]]"
proof -
  have b: "build_process_chain burst_env = failing_lookup"
    by (simp add: burst_env_def example_env_def)
  have fields: "a_alert_type example_alert = None" "a_severity example_alert = None"
    "a_message example_alert = None"
    by (simp_all add: example_alert_def)
  show ?thesis
    using burst_refresh fields
    by (simp add: b first_alert_row)
qed

section \<open>Column layout\<close>

subsection \<open>Signals and settings\<close>

lemma map_header_simps [simp]:
  "t_header (w_table (map_header f w)) = f (t_header (w_table w))"
  "t_column_count (w_table (map_header f w)) = t_column_count (w_table w)"
  "t_viewport_width (w_table (map_header f w)) = t_viewport_width (w_table w)"
  "t_cells (w_table (map_header f w)) = t_cells (w_table w)"
  "w_settings (map_header f w) = w_settings w"
  by (simp_all add: map_header_def)

lemma save_under_table [simp]: "w_table (save_under k w) = w_table w"
  by (simp add: save_under_def)

lemma fold_save_under_table [simp]: "w_table (fold save_under ks w) = w_table w"
  by (induction ks arbitrary: w) simp_all

lemma fold_save_under_settings:
  "w_settings (fold save_under ks w) k =
     (if k \<in> set ks then Some (saveState (t_header (w_table w))) else w_settings w k)"
  by (induction ks arbitrary: w) (simp_all add: save_under_def)

lemma emit_table [simp]: "w_table (emit_sectionResized w) = w_table w"
  by (simp add: emit_sectionResized_def)

lemma emit_settings:
  "w_settings (emit_sectionResized w) k =
     (if k \<in> set (h_section_resized_slots (t_header (w_table w)))
      then Some (saveState (t_header (w_table w))) else w_settings w k)"
  by (simp add: emit_sectionResized_def fold_save_under_settings)

subsection \<open>The layout pass\<close>

lemma fold_update_length [simp]:
  "length (fold (\<lambda>l s. s[l := g l]) ls s) = length s"
  by (induction ls arbitrary: s) simp_all

lemma fold_update_nth:
  "k < length s \<Longrightarrow>
   fold (\<lambda>l s. s[l := g l]) ls s ! k = (if k \<in> set ls then g k else s ! k)"
  by (induction ls arbitrary: s) (auto simp: nth_list_update)

lemma fold_update_same:
  "(\<And>l. l \<in> set ls \<Longrightarrow> l < length s \<Longrightarrow> s ! l = g l) \<Longrightarrow>
   fold (\<lambda>l s. s[l := g l]) ls s = s"
  by (rule nth_equalityI) (simp_all add: fold_update_nth)

lemma fold_update_cong:
  "(\<And>l. l \<in> set ls \<Longrightarrow> f l = g l) \<Longrightarrow>
   fold (\<lambda>l s. s[l := f l]) ls s = fold (\<lambda>l s. s[l := g l]) ls s"
  by (induction ls arbitrary: s) simp_all

lemma bound_size_idem [simp]: "bound_size h (bound_size h s) = bound_size h s"
  by (simp add: bound_size_def)

lemma bound_size_within:
  "h_minimum_section_size h \<le> s \<Longrightarrow> s \<le> h_maximum_section_size h \<Longrightarrow> bound_size h s = s"
  by (simp add: bound_size_def)

lemma section_mode_interactive:
  "set (h_resize_modes h) \<subseteq> {Interactive} \<Longrightarrow> h_global_resize_mode h = Interactive \<Longrightarrow>
   section_mode h l = Interactive"
  by (auto simp: section_mode_def dest: nth_mem)

lemma last_notin_butlast:
  "distinct xs \<Longrightarrow> xs \<noteq> [] \<Longrightarrow> last xs \<notin> set (butlast xs)"
proof -
  assume d: "distinct xs" and n: "xs \<noteq> []"
  have "distinct (butlast xs @ [last xs])" using d n by simp
  thus ?thesis by simp
qed

lemma filter_last_distinct:
  assumes "distinct xs" "xs \<noteq> []"
  shows "filter (\<lambda>l. l = last xs) xs = [last xs]"
    and "filter (\<lambda>l. l \<noteq> last xs) xs = butlast xs"
proof -
  have xs: "xs = butlast xs @ [last xs]" using assms(2) by simp
  have notin: "last xs \<notin> set (butlast xs)"
    using assms by (rule last_notin_butlast)
  have "filter (\<lambda>l. l = last xs) (butlast xs @ [last xs]) = [last xs]"
    using notin by (auto simp: filter_empty_conv)
  thus "filter (\<lambda>l. l = last xs) xs = [last xs]" using xs by simp
  have "filter (\<lambda>l. l \<noteq> last xs) (butlast xs @ [last xs]) = butlast xs"
    using notin by (auto simp: filter_id_conv)
  thus "filter (\<lambda>l. l \<noteq> last xs) xs = butlast xs" using xs by simp
qed

lemma resizeSections_fields [simp]:
  "h_visual_order (resizeSections vw h) = h_visual_order h"
  "h_stretch_last_section (resizeSections vw h) = h_stretch_last_section h"
  "h_sections_movable (resizeSections vw h) = h_sections_movable h"
  "h_resize_modes (resizeSections vw h) = h_resize_modes h"
  "h_global_resize_mode (resizeSections vw h) = h_global_resize_mode h"
  "h_size_hints (resizeSections vw h) = h_size_hints h"
  "h_minimum_section_size (resizeSections vw h) = h_minimum_section_size h"
  "h_maximum_section_size (resizeSections vw h) = h_maximum_section_size h"
  "h_default_section_size (resizeSections vw h) = h_default_section_size h"
  "h_sort_indicator_section (resizeSections vw h) = h_sort_indicator_section h"
  "h_sort_indicator_order (resizeSections vw h) = h_sort_indicator_order h"
  "h_section_resized_slots (resizeSections vw h) = h_section_resized_slots h"
  "h_resize_pending (resizeSections vw h) = False"
  by (simp_all add: resizeSections_def Let_def)

text \<open>
  The layout of a header whose last section is stretched and whose sections are all in
  Interactive mode: every other section gets its bounded size, and the last one the
  room that is left, when there is room.
\<close>

lemma resizeSections_stretch_last:
  assumes "h_stretch_last_section h" "set (h_resize_modes h) \<subseteq> {Interactive}"
    "h_global_resize_mode h = Interactive" "distinct (h_visual_order h)"
    "h_visual_order h \<noteq> []"
  shows "h_section_sizes (resizeSections vw h) =
     (let others = butlast (h_visual_order h);
          fixed = fold (\<lambda>l s. s[l := bound_size h (section_size h l)]) others (h_section_sizes h);
          room = vw - sum_list (map (\<lambda>l. bound_size h (section_size h l)) others)
      in if room > 0 then fixed[last (h_visual_order h) := max room (h_minimum_section_size h)]
         else fixed)"
proof -
  let ?o = "h_visual_order h"
  have st: "stretch_section h = Some (last ?o)"
    using assms by (simp add: stretch_section_def)
  have lm: "layout_mode h l = Stretch \<longleftrightarrow> l = last ?o" for l
    using st section_mode_interactive [OF assms(2,3), of l] by (auto simp: layout_mode_def)
  have fx: "fixed_size h l = bound_size h (section_size h l)" if "l \<in> set (butlast ?o)" for l
  proof -
    have "l \<noteq> last ?o"
      using that last_notin_butlast [OF assms(4,5)] by auto
    hence "layout_mode h l = Interactive"
      using st section_mode_interactive [OF assms(2,3), of l] by (simp add: layout_mode_def)
    thus ?thesis by (simp add: fixed_size_def)
  qed
  have f1: "filter (\<lambda>l. layout_mode h l = Stretch) ?o = [last ?o]"
    using filter_last_distinct(1) [OF assms(4,5)] by (simp add: lm)
  have f2: "filter (\<lambda>l. layout_mode h l \<noteq> Stretch) ?o = butlast ?o"
    using filter_last_distinct(2) [OF assms(4,5)] by (simp add: lm)
  have m: "map (fixed_size h) (butlast ?o) = map (\<lambda>l. bound_size h (section_size h l)) (butlast ?o)"
    using fx by simp
  have fo: "fold (\<lambda>l s. s[l := fixed_size h l]) (butlast ?o) (h_section_sizes h)
      = fold (\<lambda>l s. s[l := bound_size h (section_size h l)]) (butlast ?o) (h_section_sizes h)"
    using fx by (rule fold_update_cong)
  show ?thesis
    by (simp add: resizeSections_def Let_def f1 f2 m fo enumerate_eq_zip)
qed

lemma resizeSections_length [simp]:
  "length (h_section_sizes (resizeSections vw h)) = length (h_section_sizes h)"
proof -
  have "length (fold (\<lambda>(k, l) s. s[l := g k l]) kls s) = length s" for g and kls :: "(nat \<times> nat) list" and s :: "int list"
    by (induction kls arbitrary: s) (simp_all add: split_beta)
  thus ?thesis by (simp add: resizeSections_def Let_def)
qed

subsection \<open>What the header's operations change\<close>

lemma post_layout_fields [simp]:
  "h_section_sizes (post_layout h) = h_section_sizes h"
  "h_visual_order (post_layout h) = h_visual_order h"
  "h_stretch_last_section (post_layout h) = h_stretch_last_section h"
  "h_resize_modes (post_layout h) = h_resize_modes h"
  "h_global_resize_mode (post_layout h) = h_global_resize_mode h"
  "h_minimum_section_size (post_layout h) = h_minimum_section_size h"
  "h_maximum_section_size (post_layout h) = h_maximum_section_size h"
  "h_section_resized_slots (post_layout h) = h_section_resized_slots h"
  "h_resize_pending (post_layout h) = (h_resize_pending h \<or> hasAutoResizeSections h)"
  by (simp_all add: post_layout_def)


lemma managed_auto: "managed key h \<Longrightarrow> hasAutoResizeSections h"
  by (simp add: managed_def hasAutoResizeSections_def)

lemma same_frame_refl [simp]: "same_frame h h"
  by (simp add: same_frame_def)

lemma same_frame_trans: "same_frame h h' \<Longrightarrow> same_frame h' h'' \<Longrightarrow> same_frame h h''"
  by (simp add: same_frame_def)

text \<open>Setting every section to Interactive.\<close>

lemma setSectionResizeMode_same:
  assumes "set (h_resize_modes h) \<subseteq> {Interactive}"
    "hasAutoResizeSections h \<longrightarrow> h_resize_pending h"
  shows "setSectionResizeMode i Interactive h = h"
proof -
  have "(h_resize_modes h)[i := Interactive] = h_resize_modes h"
  proof (cases "i < length (h_resize_modes h)")
    case True
    hence "h_resize_modes h ! i = Interactive" using assms(1) nth_mem by fastforce
    thus ?thesis by (metis list_update_id)
  qed (simp add: list_update_beyond)
  thus ?thesis using assms(2) by (auto simp: setSectionResizeMode_def post_layout_def)
qed

lemma fold_setSectionResizeMode_same:
  assumes "set (h_resize_modes h) \<subseteq> {Interactive}"
    "hasAutoResizeSections h \<longrightarrow> h_resize_pending h"
  shows "fold (\<lambda>i. setSectionResizeMode i Interactive) ns h = h"
  by (induction ns) (simp_all add: setSectionResizeMode_same [OF assms])

lemma force_interactive_header:
  "header_of (force_interactive w) =
     (header_of w)\<lparr> h_resize_modes := replicate (length (h_resize_modes (header_of w))) Interactive,
                    h_global_resize_mode := Interactive,
                    h_resize_pending := (h_resize_pending (header_of w)
                                          \<or> h_stretch_last_section (header_of w)) \<rparr>"
proof -
  let ?h = "header_of w"
  let ?h' = "setSectionResizeModeAll Interactive ?h"
  have eq: "?h' = ?h\<lparr> h_resize_modes := replicate (length (h_resize_modes ?h)) Interactive,
                      h_global_resize_mode := Interactive,
                      h_resize_pending := (h_resize_pending ?h \<or> h_stretch_last_section ?h) \<rparr>"
    by (simp add: setSectionResizeModeAll_def post_layout_def hasAutoResizeSections_def
          map_replicate_const)
  have "fold (\<lambda>i. setSectionResizeMode i Interactive) ns ?h' = ?h'" for ns
    by (rule fold_setSectionResizeMode_same) (auto simp: eq hasAutoResizeSections_def)
  thus ?thesis by (simp add: force_interactive_def eq)
qed

lemma force_interactive_rest [simp]:
  "t_column_count (w_table (force_interactive w)) = t_column_count (w_table w)"
  "t_viewport_width (w_table (force_interactive w)) = t_viewport_width (w_table w)"
  "w_settings (force_interactive w) = w_settings w"
  by (simp_all add: force_interactive_def)

text \<open>The layout pass and the event loop.\<close>

lemma run_layout_header [simp]:
  "header_of (run_layout w) = resizeSections (t_viewport_width (w_table w)) (header_of w)"
  by (simp add: run_layout_def Let_def)

lemma run_layout_rest [simp]:
  "t_column_count (w_table (run_layout w)) = t_column_count (w_table w)"
  "t_viewport_width (w_table (run_layout w)) = t_viewport_width (w_table w)"
  by (simp_all add: run_layout_def Let_def)

lemma run_layout_settings:
  "w_settings (run_layout w) k =
     (if k \<in> set (h_section_resized_slots (header_of w))
         \<and> h_section_sizes (resizeSections (t_viewport_width (w_table w)) (header_of w))
             \<noteq> sizes_of w
      then Some (saveState (resizeSections (t_viewport_width (w_table w)) (header_of w)))
      else w_settings w k)"
  by (simp add: run_layout_def Let_def emit_settings)



lemma process_events_header:
  "header_of (process_events w) =
     (if h_resize_pending (header_of w)
      then resizeSections (t_viewport_width (w_table w)) (header_of w) else header_of w)"
  by (simp add: process_events_def)

lemma process_events_rest [simp]:
  "t_column_count (w_table (process_events w)) = t_column_count (w_table w)"
  "t_viewport_width (w_table (process_events w)) = t_viewport_width (w_table w)"
  by (simp_all add: process_events_def)


lemma process_events_managed:
  "managed key (header_of w) \<Longrightarrow> managed key (header_of (process_events w))"
  by (simp add: process_events_header managed_def)

lemma process_events_frame:
  "same_frame h (header_of w) \<Longrightarrow> same_frame h (header_of (process_events w))"
  by (simp add: process_events_header same_frame_def)

lemma viewport_resized_header [simp]:
  "header_of (viewport_resized vw w) = post_layout (header_of w)"
  "t_column_count (w_table (viewport_resized vw w)) = t_column_count (w_table w)"
  "t_viewport_width (w_table (viewport_resized vw w)) = vw"
  "w_settings (viewport_resized vw w) = w_settings w"
  by (simp_all add: viewport_resized_def map_header_def)

lemma post_layout_managed: "managed key h \<Longrightarrow> managed key (post_layout h)"
  by (simp add: managed_def)

lemma post_layout_frame: "same_frame h h' \<Longrightarrow> same_frame h (post_layout h')"
  by (simp add: same_frame_def)

text \<open>Resizing one section.\<close>

lemma resizeSection_header:
  "header_of (resizeSection i v w) =
     (let h = header_of w; b = (if v > 0 then bound_size h v else v)
      in if i < length (h_section_sizes h) \<and> 0 \<le> v \<and> v \<le> maxSizeSection
            \<and> h_section_sizes h ! i \<noteq> b
         then post_layout (h\<lparr> h_section_sizes := (h_section_sizes h)[i := b] \<rparr>)
         else h)"
  by (auto simp: resizeSection_def Let_def)

lemma resizeSection_rest [simp]:
  "t_column_count (w_table (resizeSection i v w)) = t_column_count (w_table w)"
  "t_viewport_width (w_table (resizeSection i v w)) = t_viewport_width (w_table w)"
  by (simp_all add: resizeSection_def Let_def)

lemma resizeSection_fields [simp]:
  "h_visual_order (header_of (resizeSection i v w)) = h_visual_order (header_of w)"
  "h_stretch_last_section (header_of (resizeSection i v w)) = h_stretch_last_section (header_of w)"
  "h_resize_modes (header_of (resizeSection i v w)) = h_resize_modes (header_of w)"
  "h_global_resize_mode (header_of (resizeSection i v w)) = h_global_resize_mode (header_of w)"
  "h_minimum_section_size (header_of (resizeSection i v w)) = h_minimum_section_size (header_of w)"
  "h_maximum_section_size (header_of (resizeSection i v w)) = h_maximum_section_size (header_of w)"
  "h_section_resized_slots (header_of (resizeSection i v w)) = h_section_resized_slots (header_of w)"
  "length (sizes_of (resizeSection i v w)) = length (sizes_of w)"
  by (simp_all add: resizeSection_header Let_def)

lemma resizeSection_sizes:
  "sizes_of (resizeSection i v w) =
     (if i < length (sizes_of w) \<and> 0 \<le> v \<and> v \<le> maxSizeSection
      then (sizes_of w)[i := (if v > 0 then bound_size (header_of w) v else v)]
      else sizes_of w)"
  by (auto simp: resizeSection_header Let_def) (metis list_update_id)+

lemma resizeSection_pending:
  "h_resize_pending (header_of w) \<Longrightarrow> h_resize_pending (header_of (resizeSection i v w))"
  by (simp add: resizeSection_header Let_def)

lemma resizeSection_managed:
  "managed key (header_of w) \<Longrightarrow> managed key (header_of (resizeSection i v w))"
  by (simp add: managed_def)

lemma resizeSection_frame:
  "same_frame h (header_of w) \<Longrightarrow> same_frame h (header_of (resizeSection i v w))"
  by (simp add: same_frame_def)


lemma fold_setColumnWidth_keeps:
  "t_column_count (w_table (fold (\<lambda>i. setColumnWidth i c) ns w)) = t_column_count (w_table w)"
  "t_viewport_width (w_table (fold (\<lambda>i. setColumnWidth i c) ns w)) = t_viewport_width (w_table w)"
  "managed key (header_of w) \<Longrightarrow> managed key (header_of (fold (\<lambda>i. setColumnWidth i c) ns w))"
  "same_frame h (header_of w) \<Longrightarrow> same_frame h (header_of (fold (\<lambda>i. setColumnWidth i c) ns w))"
  "h_resize_pending (header_of w) \<Longrightarrow>
     h_resize_pending (header_of (fold (\<lambda>i. setColumnWidth i c) ns w))"
  by (induction ns arbitrary: w)
     (simp_all add: setColumnWidth_def resizeSection_managed resizeSection_frame
        resizeSection_pending)

lemma fold_setColumnWidth_saved:
  assumes "k \<in> set (h_section_resized_slots (header_of w))"
    "w_settings w k = Some (saveState (header_of w))"
  shows "w_settings (fold (\<lambda>i. setColumnWidth i c) ns w) k
       = Some (saveState (header_of (fold (\<lambda>i. setColumnWidth i c) ns w)))"
  using assms
proof (induction ns arbitrary: w)
  case (Cons n ns)
  have "w_settings (setColumnWidth n c w) k = Some (saveState (header_of (setColumnWidth n c w)))"
    using Cons.prems by (auto simp: setColumnWidth_def resizeSection_def Let_def emit_settings)
  moreover have "k \<in> set (h_section_resized_slots (header_of (setColumnWidth n c w)))"
    using Cons.prems(1) by (simp add: setColumnWidth_def)
  ultimately show ?case using Cons.IH by simp
qed simp

subsection \<open>Setting up a manager\<close>

lemma set_replicate_subset [simp]: "set (replicate n x) \<subseteq> {x}"
  by auto

lemma setStretchLastSection_header:
  "header_of (setStretchLastSection_True w) =
     (if h_stretch_last_section (header_of w) then header_of w
      else resizeSections (t_viewport_width (w_table w))
             ((header_of w)\<lparr> h_stretch_last_section := True \<rparr>))"
  by (simp add: setStretchLastSection_True_def)

lemma setStretchLastSection_rest [simp]:
  "t_column_count (w_table (setStretchLastSection_True w)) = t_column_count (w_table w)"
  "t_viewport_width (w_table (setStretchLastSection_True w)) = t_viewport_width (w_table w)"
  by (simp_all add: setStretchLastSection_True_def)

lemma setStretchLastSection_settings:
  "k \<notin> set (h_section_resized_slots (header_of w)) \<Longrightarrow>
   w_settings (setStretchLastSection_True w) k = w_settings w k"
  by (simp add: setStretchLastSection_True_def run_layout_settings)

lemma restore_header_simps [simp]:
  "header_of (restore_header st w) = restoreState st (t_column_count (w_table w)) (header_of w)"
  "t_column_count (w_table (restore_header st w)) = t_column_count (w_table w)"
  "t_viewport_width (w_table (restore_header st w)) = t_viewport_width (w_table w)"
  "w_settings (restore_header st w) = w_settings w"
  by (simp_all add: restore_header_def Let_def sortIndicatorChanged_def)

lemma restore_state_none:
  "w_settings w (settings_key m) = None \<Longrightarrow>
   restore_state m w =
     (m\<lparr> default_set := False \<rparr>,
      force_interactive (map_header (connect_slot (settings_key m))
                           (map_header (disconnect_slot (settings_key m)) w)))"
  by (simp add: restore_state_def Let_def)


text \<open>
  A first start: nothing is stored under the key and the slot is not connected yet. The
  manager waits for the first resize; the header is managed and a layout pass is posted.
\<close>

lemma setup_fresh:
  assumes "w_settings w key = None" "key \<notin> set (h_section_resized_slots (header_of w))"
  shows "fst (setup_manager (new_manager key) w) = new_manager key"
    and "managed key (header_of (snd (setup_manager (new_manager key) w)))"
    and "same_frame (header_of w) (header_of (snd (setup_manager (new_manager key) w)))"
    and "h_resize_pending (header_of (snd (setup_manager (new_manager key) w)))"
    and "t_column_count (w_table (snd (setup_manager (new_manager key) w))) = t_column_count (w_table w)"
    and "t_viewport_width (w_table (snd (setup_manager (new_manager key) w))) = t_viewport_width (w_table w)"
proof -
  let ?w1 = "map_header (\<lambda>h. h\<lparr> h_sections_movable := True \<rparr>) w"
  let ?w2 = "force_interactive (setStretchLastSection_True ?w1)"
  have none: "w_settings ?w2 (settings_key (new_manager key)) = None"
    using assms by (simp add: setStretchLastSection_settings new_manager_def)
  have eq: "setup_manager (new_manager key) w =
      ((new_manager key)\<lparr> default_set := False \<rparr>,
       force_interactive (map_header (connect_slot key) (map_header (disconnect_slot key) ?w2)))"
    using restore_state_none [OF none] by (simp add: setup_manager_def Let_def new_manager_def)
  have st: "h_stretch_last_section (header_of (setStretchLastSection_True ?w1))"
    by (simp add: setStretchLastSection_header)
  show "fst (setup_manager (new_manager key) w) = new_manager key"
    by (subst eq) (simp add: new_manager_def)
  show "managed key (header_of (snd (setup_manager (new_manager key) w)))"
    using st
    by (simp add: eq managed_def force_interactive_header connect_slot_def disconnect_slot_def)
  show "same_frame (header_of w) (header_of (snd (setup_manager (new_manager key) w)))"
    by (simp add: eq same_frame_def force_interactive_header connect_slot_def
          disconnect_slot_def setStretchLastSection_header)
  show "h_resize_pending (header_of (snd (setup_manager (new_manager key) w)))"
    using st
    by (simp add: eq force_interactive_header connect_slot_def disconnect_slot_def)
  show "t_column_count (w_table (snd (setup_manager (new_manager key) w))) = t_column_count (w_table w)"
    by (simp add: eq)
  show "t_viewport_width (w_table (snd (setup_manager (new_manager key) w))) = t_viewport_width (w_table w)"
    by (simp add: eq)
qed


subsection \<open>The first resize\<close>

lemma handle_resize_done: "default_set m \<Longrightarrow> handle_resize m w = (m, w)"
  by (simp add: handle_resize_def)

lemma handle_resize_first:
  assumes "\<not> default_set m" "300 < t_viewport_width (w_table w)" "0 < t_column_count (w_table w)"
    "h_stretch_last_section (header_of w)"
  shows "handle_resize m w =
     (m\<lparr> default_set := True \<rparr>,
      fold (\<lambda>i. setColumnWidth i (t_viewport_width (w_table w) div int (t_column_count (w_table w))))
        [0 ..< t_column_count (w_table w) - 1] w)"
  using assms by (simp add: handle_resize_def Let_def)



lemma fold_setColumnWidth_sizes:
  assumes "k \<le> length (sizes_of w)" "0 \<le> c" "c \<le> maxSizeSection"
    "h_minimum_section_size (header_of w) \<le> c" "c \<le> h_maximum_section_size (header_of w)"
  shows "sizes_of (fold (\<lambda>i. setColumnWidth i c) [0 ..< k] w) = replicate k c @ drop k (sizes_of w)"
  using assms(1)
proof (induction k)
  case (Suc k)
  let ?w = "fold (\<lambda>i. setColumnWidth i c) [0 ..< k] w"
  have fr: "same_frame (header_of w) (header_of ?w)"
    by (rule fold_setColumnWidth_keeps) simp
  have b: "(if 0 < c then bound_size (header_of ?w) c else c) = c"
    using fr assms(4,5) by (simp add: same_frame_def bound_size_def)
  have len: "k < length (sizes_of ?w)" using fr Suc.prems by (simp add: same_frame_def)
  have "sizes_of (fold (\<lambda>i. setColumnWidth i c) [0 ..< Suc k] w) = (sizes_of ?w)[k := c]"
    using len assms(2,3) b by (simp add: setColumnWidth_def resizeSection_sizes)
  also have "\<dots> = (replicate k c @ drop k (sizes_of w))[k := c]"
    using Suc by simp
  also have "\<dots> = replicate (Suc k) c @ drop (Suc k) (sizes_of w)"
    using Suc.prems
    by (simp add: list_update_append replicate_append_same Cons_nth_drop_Suc [symmetric])
  finally show ?case .
qed simp

subsection \<open>A layout pass on a laid-out header changes nothing\<close>


subsection \<open>The first resize distributes the columns, once\<close>

lemma distribute_room:
  assumes "0 < n" "300 < vw"
  shows "0 \<le> vw div int n"
    and "vw div int n \<le> vw - int (n - 1) * (vw div int n)"
    and "0 < vw - int (n - 1) * (vw div int n)"
proof -
  let ?c = "vw div int n"
  have n: "0 < int n" using assms(1) by simp
  show c: "0 \<le> ?c" using assms n by (simp add: pos_imp_zdiv_nonneg_iff)
  have "int n * ?c = vw - vw mod int n" by (simp add: minus_mod_eq_mult_div)
  moreover have "0 \<le> vw mod int n" using n by simp
  ultimately have le: "int n * ?c \<le> vw" by linarith
  have "int (n - 1) * ?c = int n * ?c - ?c"
    using assms(1) by (simp add: of_nat_diff algebra_simps)
  thus r: "?c \<le> vw - int (n - 1) * ?c" using le by linarith
  show "0 < vw - int (n - 1) * ?c"
  proof (cases "?c = 0")
    case True
    thus ?thesis using assms(2) by simp
  next
    case False
    thus ?thesis using c r by linarith
  qed
qed

lemma first_resize_layout:
  assumes fresh: "w_settings w key = None"
      "key \<notin> set (h_section_resized_slots (header_of w))"
    and cols: "t_column_count (w_table w) = n" "length (sizes_of w) = n"
      "h_visual_order (header_of w) = [0 ..< n]" "0 < n"
    and width: "300 < vw"
    and bounds: "h_minimum_section_size (header_of w) \<le> vw div int n"
      "vw div int n \<le> h_maximum_section_size (header_of w)"
      "h_maximum_section_size (header_of w) \<le> maxSizeSection"
    and s: "s = setup_manager (new_manager key) w"
    and shown: "w1 = snd s \<or> w1 = process_events (snd s)"
    and r: "r = resizeEvent vw (fst s) w1"
  shows "\<not> default_set (fst s)
       \<and> snd r = fold (\<lambda>i. setColumnWidth i (vw div int n)) [0 ..< n - 1] (viewport_resized vw w1)
       \<and> take (n - 1) (sizes_of (snd r)) = replicate (n - 1) (vw div int n)
       \<and> sizes_of (process_events (snd r))
           = replicate (n - 1) (vw div int n) @ [vw - int (n - 1) * (vw div int n)]
       \<and> default_set (fst r)
       \<and> handle_resize (fst r) w' = (fst r, w')"
proof -
  let ?c = "vw div int n"
  let ?room = "vw - int (n - 1) * ?c"
  let ?v = "viewport_resized vw w1"
  note su = setup_fresh [OF fresh]
  have m: "fst s = new_manager key" using su(1) s by simp
  have nd: "\<not> default_set (fst s)" by (simp add: m new_manager_def)
  have w1: "managed key (header_of w1)" "same_frame (header_of w) (header_of w1)"
      "t_column_count (w_table w1) = n"
    using shown su(2,3,5) s cols(1)
    by (auto simp: process_events_managed process_events_frame)
  have v: "managed key (header_of ?v)" "same_frame (header_of w) (header_of ?v)"
      "t_column_count (w_table ?v) = n" "t_viewport_width (w_table ?v) = vw"
      "h_resize_pending (header_of ?v)"
    using w1 by (simp_all add: post_layout_managed post_layout_frame managed_auto)
  have st: "h_stretch_last_section (header_of ?v)" using v(1) by (simp add: managed_def)
  have hr: "handle_resize (fst s) ?v =
      ((fst s)\<lparr> default_set := True \<rparr>, fold (\<lambda>i. setColumnWidth i ?c) [0 ..< n - 1] ?v)"
    using handle_resize_first [of "fst s" ?v] nd width cols(4) st
    by (simp only: v(3,4)) simp
  have r1: "fst r = (fst s)\<lparr> default_set := True \<rparr>"
    and r2: "snd r = fold (\<lambda>i. setColumnWidth i ?c) [0 ..< n - 1] ?v"
    using hr r by (simp_all add: resizeEvent_def)
  have ds: "default_set (fst r)" by (simp add: r1)
  note room = distribute_room [OF cols(4) width]
  have vb: "h_minimum_section_size (header_of ?v) \<le> ?c" "?c \<le> h_maximum_section_size (header_of ?v)"
      "length (sizes_of ?v) = n"
    using v(2) bounds(1,2) cols(2) by (simp_all add: same_frame_def)
  have cmax: "?c \<le> maxSizeSection" using bounds(2,3) by linarith
  have sz: "sizes_of (snd r) = replicate (n - 1) ?c @ drop (n - 1) (sizes_of ?v)"
    unfolding r2
    by (rule fold_setColumnWidth_sizes) (use vb room(1) cmax in simp_all)
  have tk: "take (n - 1) (sizes_of (snd r)) = replicate (n - 1) ?c"
    by (simp add: sz)
  have rk: "managed key (header_of (snd r))" "same_frame (header_of w) (header_of (snd r))"
      "h_resize_pending (header_of (snd r))" "t_viewport_width (w_table (snd r)) = vw"
    unfolding r2 using v by (simp_all add: fold_setColumnWidth_keeps)
  let ?h = "header_of (snd r)"
  have h: "h_stretch_last_section ?h" "set (h_resize_modes ?h) \<subseteq> {Interactive}"
      "h_global_resize_mode ?h = Interactive" "h_visual_order ?h = [0 ..< n]"
      "h_minimum_section_size ?h \<le> ?c" "?c \<le> h_maximum_section_size ?h"
      "length (h_section_sizes ?h) = n"
    using rk(1,2) cols(2,3) bounds(1,2) by (simp_all add: managed_def same_frame_def)
  have ord: "distinct (h_visual_order ?h)" "h_visual_order ?h \<noteq> []"
    using cols(4) by (simp_all add: h(4))
  have bl: "butlast (h_visual_order ?h) = [0 ..< n - 1]" "last (h_visual_order ?h) = n - 1"
    using cols(4) by (cases n; simp add: h(4))+
  have g: "bound_size ?h (section_size ?h l) = ?c" if "l \<in> set [0 ..< n - 1]" for l
  proof -
    have l: "l < n - 1" using that by simp
    hence "section_size ?h l = ?c" using h(7) by (simp add: section_size_def sz nth_append)
    thus ?thesis using h(5,6) by (simp add: bound_size_within)
  qed
  have fixed: "fold (\<lambda>l s. s[l := bound_size ?h (section_size ?h l)]) [0 ..< n - 1] (h_section_sizes ?h)
      = h_section_sizes ?h"
  proof (rule fold_update_same)
    fix l assume "l \<in> set [0 ..< n - 1]" "l < length (h_section_sizes ?h)"
    thus "h_section_sizes ?h ! l = bound_size ?h (section_size ?h l)"
      using g [of l] by (simp add: sz nth_append)
  qed
  have sum: "sum_list (map (\<lambda>l. bound_size ?h (section_size ?h l)) [0 ..< n - 1]) = int (n - 1) * ?c"
  proof -
    have e: "map (\<lambda>l. bound_size ?h (section_size ?h l)) [0 ..< n - 1] = map (\<lambda>l. ?c) [0 ..< n - 1]"
      using g by simp
    have "sum_list (map (\<lambda>l. ?c) [0 ..< n - 1]) = int (n - 1) * ?c"
      by (simp add: sum_list_triv)
    thus ?thesis by (simp only: e)
  qed
  have mx: "max ?room (h_minimum_section_size ?h) = ?room"
    using room(2) h(5) by linarith
  have step: "h_section_sizes (resizeSections vw ?h) =
      (if 0 < ?room then (h_section_sizes ?h)[n - 1 := max ?room (h_minimum_section_size ?h)]
       else h_section_sizes ?h)"
    unfolding resizeSections_stretch_last [OF h(1,2,3) ord, of vw] Let_def bl fixed sum
    by (rule refl)
  have laid: "h_section_sizes (resizeSections vw ?h) = (h_section_sizes ?h)[n - 1 := ?room]"
    using room(3) unfolding step mx by simp
  have y: "drop (n - 1) (sizes_of ?v) = [sizes_of ?v ! (n - 1)]"
    using vb(3) cols(4) by (simp add: Cons_nth_drop_Suc [symmetric])
  have "(h_section_sizes ?h)[n - 1 := ?room] = replicate (n - 1) ?c @ [?room]"
    unfolding sz y by (simp add: list_update_append)
  hence fin: "sizes_of (process_events (snd r)) = replicate (n - 1) ?c @ [?room]"
    using rk(3,4) laid by (simp add: process_events_header)
  have noop: "handle_resize (fst r) w' = (fst r, w')"
    using ds by (rule handle_resize_done)
  show ?thesis using nd r2 tk fin ds noop by simp
qed

text \<open>
  Claim C4. A manager is set up on a table under whose key nothing was saved and whose
  header has its \<open>n\<close> sections in their natural order; then the widget gets a resize
  event for a viewport of width \<open>vw > 300\<close>, whether or not the event loop ran in
  between. The manager did not mark the layout as established at set-up. The resize
  event calls \<open>setColumnWidth\<close> with \<open>vw // n\<close> for the first \<open>n - 1\<close> columns and for
  no other, so that each of them has that width when \<open>handle_resize\<close> returns; the last
  column, which is stretched, is given no width by the manager: the layout pass that
  follows gives it the room the others leave. The layout is then marked as established,
  and from then on \<open>handle_resize\<close> returns every state as it got it. For 7 columns and
  a viewport of 900 the widths are six times 128, and 132 for the last column.
\<close>

theorem first_resize_distributes_once:
  assumes fresh: "w_settings w key = None"
      "key \<notin> set (h_section_resized_slots (header_of w))"
    and cols: "t_column_count (w_table w) = n" "length (sizes_of w) = n"
      "h_visual_order (header_of w) = [0 ..< n]" "0 < n"
    and width: "300 < vw"
    and bounds: "h_minimum_section_size (header_of w) \<le> vw div int n"
      "vw div int n \<le> h_maximum_section_size (header_of w)"
      "h_maximum_section_size (header_of w) \<le> maxSizeSection"
    and s: "s = setup_manager (new_manager key) w"
    and shown: "w1 = snd s \<or> w1 = process_events (snd s)"
    and r: "r = resizeEvent vw (fst s) w1"
  shows "\<not> default_set (fst s)
       \<and> snd r = fold (\<lambda>i. setColumnWidth i (vw div int n)) [0 ..< n - 1] (viewport_resized vw w1)
       \<and> take (n - 1) (sizes_of (snd r)) = replicate (n - 1) (vw div int n)
       \<and> sizes_of (process_events (snd r))
           = replicate (n - 1) (vw div int n) @ [vw - int (n - 1) * (vw div int n)]
       \<and> default_set (fst r)
       \<and> handle_resize (fst r) w' = (fst r, w')"
  using assms by (rule first_resize_layout)

theorem first_resize_distributes_once_witness:
  "w_settings example_world ''timeline_table_state'' = None
   \<and> ''timeline_table_state'' \<notin> set (h_section_resized_slots (header_of example_world))
   \<and> t_column_count (w_table example_world) = 7
   \<and> length (sizes_of example_world) = 7
   \<and> h_visual_order (header_of example_world) = [0 ..< 7]
   \<and> h_minimum_section_size (header_of example_world) \<le> 900 div 7
   \<and> 900 div 7 \<le> h_maximum_section_size (header_of example_world)
   \<and> h_maximum_section_size (header_of example_world) \<le> maxSizeSection
   \<and> \<not> default_set (fst first_start)
   \<and> take 6 (sizes_of (snd first_shown)) = [128, 128, 128, 128, 128, 128]
   \<and> sizes_of (process_events (snd first_shown)) = [128, 128, 128, 128, 128, 128, 132]
   \<and> default_set (fst first_shown)
   \<and> handle_resize (fst first_shown) (viewport_resized 1200 (process_events (snd first_shown)))
       = (fst first_shown, viewport_resized 1200 (process_events (snd first_shown)))"
proof -
  have facts: "w_settings example_world ''timeline_table_state'' = None"
    "''timeline_table_state'' \<notin> set (h_section_resized_slots (header_of example_world))"
    "t_column_count (w_table example_world) = 7"
    "length (sizes_of example_world) = 7"
    "h_visual_order (header_of example_world) = [0 ..< 7]"
    "h_minimum_section_size (header_of example_world) \<le> 900 div int 7"
    "900 div int 7 \<le> h_maximum_section_size (header_of example_world)"
    "h_maximum_section_size (header_of example_world) \<le> maxSizeSection"
    by (simp_all add: example_world_def example_table_def example_header_def maxSizeSection_def)
  have six: "replicate 6 128 = [128, 128, 128, 128, 128, 128 :: int]"
    by (simp add: numeral_eq_Suc)
  have pre: "0 < (7::nat)" "300 < (900::int)" by simp_all
  note t = first_resize_distributes_once
      [OF facts(1-5) pre facts(6-8) first_start_def disjI2 [OF refl] first_shown_def,
       where w' = "viewport_resized 1200 (process_events (snd first_shown))"]
  note c1 = t [THEN conjunct1]
  note c3 = t [THEN conjunct2, THEN conjunct2, THEN conjunct1]
  note c4 = t [THEN conjunct2, THEN conjunct2, THEN conjunct2, THEN conjunct1]
  note c5 = t [THEN conjunct2, THEN conjunct2, THEN conjunct2, THEN conjunct2, THEN conjunct1]
  note c6 = t [THEN conjunct2, THEN conjunct2, THEN conjunct2, THEN conjunct2, THEN conjunct2]
  show ?thesis
    using facts c1 c3 c4 c5 c6 by (simp add: six)
qed

subsection \<open>A resize by the user is saved at once and restored at the next start\<close>

lemma saveState_fields [simp]:
  "hs_sizes (saveState h) = h_section_sizes h"
  "hs_order (saveState h) = h_visual_order h"
  "hs_stretch_last (saveState h) = h_stretch_last_section h"
  "hs_minimum (saveState h) = h_minimum_section_size h"
  by (simp_all add: saveState_def)








end
